theory Spec2Isabelle
  imports Complex_Main
begin

section \<open>Data model of the mastering engine\<close>

text \<open>
  The engine of \<^verbatim>\<open>mastering_engine.py\<close> works on one-dimensional numpy arrays of
  floating-point samples. A sample of the caller's buffer is a finite number or one of the three
  non-finite values that \<^verbatim>\<open>np.nan_to_num\<close> removes; after validation every buffer is
  a list of finite samples, modelled over the reals (rounding is not modelled).
\<close>

datatype sample = Fin real | NaN | PosInf | NegInf

text \<open>
  The exceptions that can leave \<^verbatim>\<open>master_track\<close>. The first three are Python's
  ValueError: the silence check of \<^verbatim>\<open>_validate_input\<close>, numpy's reduction of an empty
  array, and the pad-length check of \<^verbatim>\<open>scipy.signal.filtfilt\<close>; so is the last one,
  numpy's refusal of a slice assignment between different lengths.
\<close>

datatype error =
    SilentInput
  | ZeroSizeArray
  | PadLength
  | IndexError
  | ZeroDivisionError
  | LinAlgError
  | BroadcastError

record band =
  freq :: real
  gain :: real
  q :: real

record eq_params =
  low_shelf :: band
  low_mid :: band
  mid :: band
  high_mid :: band
  high_shelf :: band

record compressor_params =
  threshold :: real
  ratio :: real
  attack :: real
  release :: real
  knee :: real
  makeup_gain :: real

text \<open>The limiter's dictionary has the keys threshold, release and lookahead; the first two
  are prefixed here because the compressor's record already has fields of these names.\<close>

record limiter_params =
  lim_threshold :: real
  lim_release :: real
  lookahead :: real

record engine =
  target_lufs :: real
  target_peak :: real
  sample_rate :: nat
  eq_params :: eq_params
  compressor_params :: compressor_params
  limiter_params :: limiter_params

definition init_eq_params :: eq_params where
  "init_eq_params =
     \<lparr>low_shelf = \<lparr>freq = 100, gain = 0, q = 7/10\<rparr>,
      low_mid = \<lparr>freq = 250, gain = 0, q = 8/10\<rparr>,
      mid = \<lparr>freq = 1000, gain = 0, q = 1\<rparr>,
      high_mid = \<lparr>freq = 4000, gain = 0, q = 8/10\<rparr>,
      high_shelf = \<lparr>freq = 8000, gain = 0, q = 7/10\<rparr>\<rparr>"

definition init_compressor_params :: compressor_params where
  "init_compressor_params =
     \<lparr>threshold = -18, ratio = 5/2, attack = 1/100, release = 1/10, knee = 3, makeup_gain = 2\<rparr>"

definition init_limiter_params :: limiter_params where
  "init_limiter_params = \<lparr>lim_threshold = -1/2, lim_release = 5/1000, lookahead = 2/1000\<rparr>"

text \<open>The constructor \<^verbatim>\<open>MasteringEngine.__init__\<close>.\<close>

definition MasteringEngine :: "real \<Rightarrow> real \<Rightarrow> engine" where
  "MasteringEngine lufs pk =
     \<lparr>target_lufs = lufs, target_peak = pk, sample_rate = 22050,
      eq_params = init_eq_params,
      compressor_params = init_compressor_params,
      limiter_params = init_limiter_params\<rparr>"

section \<open>The adaptive retune of the equaliser\<close>

text \<open>
  Lines 125 to 130 of \<^verbatim>\<open>_apply_multiband_eq\<close>: the branch on the mean spectral
  centroid, which is the only place where the engine's state is written. The centroid itself is
  computed by librosa and is an argument here.
\<close>

definition eq_retune :: "real \<Rightarrow> eq_params \<Rightarrow> eq_params" where
  "eq_retune avg_centroid p =
     (if avg_centroid < 1000 then
        p\<lparr>high_mid := (high_mid p)\<lparr>gain := 3/2\<rparr>,
          high_shelf := (high_shelf p)\<lparr>gain := 2\<rparr>\<rparr>
      else if avg_centroid > 4000 then
        p\<lparr>low_mid := (low_mid p)\<lparr>gain := 1\<rparr>\<rparr>
      else p)"

section \<open>numpy and scipy primitives\<close>

text \<open>Sequencing of fallible steps: the first exception ends the computation.\<close>

definition bind_err :: "error + 'a \<Rightarrow> ('a \<Rightarrow> error + 'b) \<Rightarrow> error + 'b" where
  "bind_err r f = (case r of Inl err \<Rightarrow> Inl err | Inr x \<Rightarrow> f x)"

fun sequence_err :: "(error + 'a) list \<Rightarrow> error + 'a list" where
  "sequence_err [] = Inr []"
| "sequence_err (r # rs) =
     (case r of
        Inl err \<Rightarrow> Inl err
      | Inr x \<Rightarrow> (case sequence_err rs of Inl err \<Rightarrow> Inl err | Inr xs \<Rightarrow> Inr (x # xs)))"

text \<open>Python's \<^verbatim>\<open>int(x)\<close> of a float truncates towards zero.\<close>

definition py_int :: "real \<Rightarrow> int" where
  "py_int x = (if 0 \<le> x then \<lfloor>x\<rfloor> else \<lceil>x\<rceil>)"

text \<open>
  The slice \<^verbatim>\<open>xs[i:j]\<close> for a start index \<open>i\<close> that is not negative: a negative
  stop counts from the end, a stop beyond the end is clipped.
\<close>

definition py_slice :: "'a list \<Rightarrow> nat \<Rightarrow> int \<Rightarrow> 'a list" where
  "py_slice xs i j =
     (let n = int (length xs);
          stop = (if j < 0 then max 0 (n + j) else min j n)
      in take (nat (stop - int i)) (drop i xs))"

text \<open>\<^verbatim>\<open>np.max(np.abs(xs))\<close>; numpy raises on an empty array.\<close>

definition abs_max :: "real list \<Rightarrow> error + real" where
  "abs_max xs = (if xs = [] then Inl ZeroSizeArray else Inr (Max (set (map abs xs))))"

text \<open>\<^verbatim>\<open>np.nan_to_num(audio, nan=0.0, posinf=0.0, neginf=0.0)\<close>.\<close>

fun nan_to_num1 :: "sample \<Rightarrow> real" where
  "nan_to_num1 (Fin x) = x"
| "nan_to_num1 NaN = 0"
| "nan_to_num1 PosInf = 0"
| "nan_to_num1 NegInf = 0"

definition nan_to_num :: "sample list \<Rightarrow> real list" where
  "nan_to_num audio = map nan_to_num1 audio"

text \<open>
  \<^verbatim>\<open>scipy.signal.lfilter(b, a, x, zi=z)\<close> for three taps: the transposed direct form II,
  with the coefficients normalised by \<open>a[0]\<close> (which is 1 at every call of this program).
\<close>

fun lfilter_run :: "real \<times> real \<times> real \<Rightarrow> real \<times> real \<Rightarrow> real \<times> real \<Rightarrow> real list \<Rightarrow> real list"
where
  "lfilter_run bs as z [] = []"
| "lfilter_run (b0, b1, b2) (a1, a2) (z0, z1) (x # xs) =
     (let y = b0 * x + z0
      in y # lfilter_run (b0, b1, b2) (a1, a2) (b1 * x + z1 - a1 * y, b2 * x - a2 * y) xs)"

definition lfilter :: "real \<times> real \<times> real \<Rightarrow> real \<times> real \<times> real \<Rightarrow> real \<times> real \<Rightarrow> real list \<Rightarrow> real list"
where
  "lfilter b a z x =
     (case (b, a) of ((b0, b1, b2), (a0, a1, a2)) \<Rightarrow>
        lfilter_run (b0 / a0, b1 / a0, b2 / a0) (a1 / a0, a2 / a0) z x)"

text \<open>
  \<^verbatim>\<open>scipy.signal.lfilter_zi(b, a)\<close> for three taps: the state of the filter at the
  steady state of its step response, the solution \<open>zi\<close> of \<open>(I - A\<^sup>T) zi = B\<close> with
  \<open>A\<close> the companion matrix of \<open>a\<close> and \<open>B = b[1:] - a[1:] * b[0]\<close>.
  \<^verbatim>\<open>np.linalg.solve\<close> raises LinAlgError when the matrix is singular, that is when
  \<open>1 + a1 + a2 = 0\<close>.
\<close>

definition lfilter_zi :: "real \<times> real \<times> real \<Rightarrow> real \<times> real \<times> real \<Rightarrow> error + real \<times> real" where
  "lfilter_zi b a =
     (case (b, a) of ((b0', b1', b2'), (a0, a1', a2')) \<Rightarrow>
        let b0 = b0' / a0; b1 = b1' / a0; b2 = b2' / a0; a1 = a1' / a0; a2 = a2' / a0;
            B1 = b1 - a1 * b0; B2 = b2 - a2 * b0
        in if 1 + a1 + a2 = 0 then Inl LinAlgError
           else let z0 = (B1 + B2) / (1 + a1 + a2) in Inr (z0, B2 - a2 * z0))"

text \<open>
  \<^verbatim>\<open>scipy.signal._arraytools.odd_ext(x, n)\<close>: the signal extended at both ends by its
  point reflection, \<open>2 * x[0] - x[n:0:-1]\<close> on the left and \<open>2 * x[-1] - x[-2:-(n+2):-1]\<close>
  on the right. It is called with \<open>n < len(x)\<close> only.
\<close>

definition odd_ext :: "real list \<Rightarrow> nat \<Rightarrow> real list" where
  "odd_ext x n =
     map (\<lambda>v. 2 * hd x - v) (rev (take n (tl x)))
     @ x
     @ map (\<lambda>v. 2 * last x - v) (take n (tl (rev x)))"

text \<open>
  \<^verbatim>\<open>scipy.signal.filtfilt(b, a, x)\<close> with its defaults (\<open>padtype='odd'\<close>,
  \<open>padlen = 3 * max(len(a), len(b)) = 9\<close>, \<open>method='pad'\<close>): the pad-length check, the
  odd extension, a forward pass started at the steady state scaled by the first sample, a
  backward pass over the reversed result started at the steady state scaled by its first
  sample, and the removal of the padding.
\<close>

definition padlen :: nat where
  "padlen = 9"

definition filtfilt :: "real \<times> real \<times> real \<Rightarrow> real \<times> real \<times> real \<Rightarrow> real list \<Rightarrow> error + real list" where
  "filtfilt b a x =
     (if length x \<le> padlen then Inl PadLength
      else
        let ext = odd_ext x padlen in
        bind_err (lfilter_zi b a) (\<lambda>zi.
          let x0 = hd ext;
              y = lfilter b a (fst zi * x0, snd zi * x0) ext;
              y0 = last y;
              y' = lfilter b a (fst zi * y0, snd zi * y0) (rev y);
              y'' = rev y'
          in Inr (take (length y'' - 2 * padlen) (drop padlen y''))))"

section \<open>The stages of the mastering chain\<close>

subsection \<open>Validation\<close>

definition validate_input :: "sample list \<Rightarrow> error + real list" where
  "validate_input audio0 =
     (let audio = nan_to_num audio0 in
      bind_err (abs_max audio) (\<lambda>m.
        if m < 1 / 10 ^ 10 then Inl SilentInput
        else
          bind_err (abs_max audio) (\<lambda>peak.
            if peak > 1 then Inr (map (\<lambda>x. x / peak * (95 / 100)) audio)
            else Inr audio)))"

subsection \<open>Equaliser\<close>

text \<open>
  The three filter functions build the coefficients of the audio-EQ-cookbook and hand them to
  \<^verbatim>\<open>filtfilt\<close>. \<^verbatim>\<open>2 * np.pi * freq / sample_rate\<close> is a division of Python
  numbers and raises ZeroDivisionError for a sample rate of zero.
\<close>

definition shelf_alpha :: "real \<Rightarrow> real \<Rightarrow> real" where
  "shelf_alpha w0 A = sin w0 / 2 * sqrt ((A + 1 / A) * (1 / (7 / 10) - 1) + 2)"

definition apply_low_shelf :: "engine \<Rightarrow> real list \<Rightarrow> int \<Rightarrow> error + real list" where
  "apply_low_shelf e audio sr =
     (let f = freq (low_shelf (eq_params e));
          g = gain (low_shelf (eq_params e))
      in if \<bar>g\<bar> > 1 / 10 then
           if sr = 0 then Inl ZeroDivisionError
           else
             let w0 = 2 * pi * f / real_of_int sr;
                 A = 10 powr (g / 40);
                 alpha = shelf_alpha w0 A;
                 b0 = A * ((A + 1) - (A - 1) * cos w0 + 2 * sqrt A * alpha);
                 b1 = 2 * A * ((A - 1) - (A + 1) * cos w0);
                 b2 = A * ((A + 1) - (A - 1) * cos w0 - 2 * sqrt A * alpha);
                 a0 = (A + 1) + (A - 1) * cos w0 + 2 * sqrt A * alpha;
                 a1 = - 2 * ((A - 1) + (A + 1) * cos w0);
                 a2 = (A + 1) + (A - 1) * cos w0 - 2 * sqrt A * alpha
             in filtfilt (b0 / a0, b1 / a0, b2 / a0) (1, a1 / a0, a2 / a0) audio
         else Inr audio)"

definition peaking_filter :: "real list \<Rightarrow> int \<Rightarrow> band \<Rightarrow> error + real list" where
  "peaking_filter audio sr params =
     (if sr = 0 then Inl ZeroDivisionError
      else
        let w0 = 2 * pi * freq params / real_of_int sr;
            A = 10 powr (gain params / 40);
            alpha = sin w0 / (2 * q params);
            b0 = 1 + alpha * A;
            b1 = - 2 * cos w0;
            b2 = 1 - alpha * A;
            a0 = 1 + alpha / A;
            a1 = - 2 * cos w0;
            a2 = 1 - alpha / A
        in filtfilt (b0 / a0, b1 / a0, b2 / a0) (1, a1 / a0, a2 / a0) audio)"

definition peaking_band :: "int \<Rightarrow> band \<Rightarrow> real list \<Rightarrow> error + real list" where
  "peaking_band sr params audio =
     (if \<bar>gain params\<bar> > 1 / 10 then peaking_filter audio sr params else Inr audio)"

definition apply_peaking_filters :: "engine \<Rightarrow> real list \<Rightarrow> int \<Rightarrow> error + real list" where
  "apply_peaking_filters e audio sr =
     bind_err (peaking_band sr (low_mid (eq_params e)) audio) (\<lambda>audio1.
     bind_err (peaking_band sr (mid (eq_params e)) audio1) (\<lambda>audio2.
     peaking_band sr (high_mid (eq_params e)) audio2))"

definition apply_high_shelf :: "engine \<Rightarrow> real list \<Rightarrow> int \<Rightarrow> error + real list" where
  "apply_high_shelf e audio sr =
     (let f = freq (high_shelf (eq_params e));
          g = gain (high_shelf (eq_params e))
      in if \<bar>g\<bar> > 1 / 10 then
           if sr = 0 then Inl ZeroDivisionError
           else
             let w0 = 2 * pi * f / real_of_int sr;
                 A = 10 powr (g / 40);
                 alpha = shelf_alpha w0 A;
                 b0 = A * ((A + 1) + (A - 1) * cos w0 + 2 * sqrt A * alpha);
                 b1 = - 2 * A * ((A - 1) + (A + 1) * cos w0);
                 b2 = A * ((A + 1) + (A - 1) * cos w0 - 2 * sqrt A * alpha);
                 a0 = (A + 1) - (A - 1) * cos w0 + 2 * sqrt A * alpha;
                 a1 = 2 * ((A - 1) - (A + 1) * cos w0);
                 a2 = (A + 1) - (A - 1) * cos w0 - 2 * sqrt A * alpha
             in filtfilt (b0 / a0, b1 / a0, b2 / a0) (1, a1 / a0, a2 / a0) audio
         else Inr audio)"

text \<open>
  Lines 122 and 123, \<^verbatim>\<open>np.mean(librosa.feature.spectral_centroid(y=audio, sr=sample_rate)[0])\<close>.
  librosa is not part of the repository: its analysis is the argument \<open>librosa\<close>, which gives
  the mean centroid or the exception that the call raised. One exception depends on the sample
  rate alone and is written out: after the spectrogram librosa computes the bin frequencies
  with \<^verbatim>\<open>np.fft.rfftfreq(n=n_fft, d=1.0 / sr)\<close>, and Python's division raises
  ZeroDivisionError for a sample rate of zero, so that the call never returns at that rate.
\<close>

definition mean_spectral_centroid ::
  "(real list \<Rightarrow> int \<Rightarrow> error + real) \<Rightarrow> real list \<Rightarrow> int \<Rightarrow> error + real"
where
  "mean_spectral_centroid librosa audio sr =
     bind_err (librosa audio sr) (\<lambda>avg_centroid.
       if sr = 0 then Inl ZeroDivisionError else Inr avg_centroid)"

text \<open>
  \<^verbatim>\<open>_apply_multiband_eq\<close>. The function returns the filtered buffer, or the exception,
  together with the engine. An exception of the analysis leaves the method before any gain is
  written; otherwise the band gains are written before the first filter runs, and stay written
  when a filter raises.
\<close>

definition apply_multiband_eq ::
  "(real list \<Rightarrow> int \<Rightarrow> error + real) \<Rightarrow> engine \<Rightarrow> real list \<Rightarrow> int
     \<Rightarrow> (error + real list) \<times> engine"
where
  "apply_multiband_eq librosa e audio sr =
     (case mean_spectral_centroid librosa audio sr of
        Inl err \<Rightarrow> (Inl err, e)
      | Inr avg_centroid \<Rightarrow>
          let e' = e\<lparr>eq_params := eq_retune avg_centroid (eq_params e)\<rparr>
          in (bind_err (apply_low_shelf e' audio sr) (\<lambda>audio1.
              bind_err (apply_peaking_filters e' audio1 sr) (\<lambda>audio2.
              apply_high_shelf e' audio2 sr)), e'))"

subsection \<open>Compressor\<close>

text \<open>The loop of lines 241 to 249: \<open>prev\<close> is \<open>smoothed_envelope[i-1]\<close>.\<close>

fun envelope_loop :: "real \<Rightarrow> real \<Rightarrow> real \<Rightarrow> real list \<Rightarrow> real list" where
  "envelope_loop alpha_attack alpha_release prev [] = []"
| "envelope_loop alpha_attack alpha_release prev (x # xs) =
     (let s = (if x > prev then alpha_attack * prev + (1 - alpha_attack) * x
               else alpha_release * prev + (1 - alpha_release) * x)
      in s # envelope_loop alpha_attack alpha_release s xs)"

text \<open>
  Lines 225 to 249: the smoothed envelope. \<^verbatim>\<open>-1/attack_samples\<close> divides Python
  numbers, and \<^verbatim>\<open>envelope[0]\<close> reads the first sample of the buffer.
\<close>

definition smoothed_envelope :: "engine \<Rightarrow> real list \<Rightarrow> error + real list" where
  "smoothed_envelope e audio =
     (let params = compressor_params e;
          attack_samples = py_int (attack params * real (sample_rate e));
          release_samples = py_int (release params * real (sample_rate e));
          envelope = map abs audio
      in if attack_samples = 0 \<or> release_samples = 0 then Inl ZeroDivisionError
         else
           let alpha_attack = exp (- 1 / real_of_int attack_samples);
               alpha_release = exp (- 1 / real_of_int release_samples)
           in case envelope of
                [] \<Rightarrow> Inl IndexError
              | x # xs \<Rightarrow> Inr (x # envelope_loop alpha_attack alpha_release x xs))"

text \<open>
  Lines 252 to 267 for one sample of the smoothed envelope: the two \<^verbatim>\<open>np.where\<close>
  selections over the initial gain of one. The quotients are computed for every sample, but
  only the selected one reaches the result.
\<close>

definition gain_reduction :: "real \<Rightarrow> real \<Rightarrow> real \<Rightarrow> real \<Rightarrow> real" where
  "gain_reduction thr rat kn env =
     (let above_threshold = env > thr;
          below_knee = env < thr / kn;
          hard_compressed = (env - thr) / rat + thr;
          knee_region = \<not> below_knee \<and> \<not> above_threshold;
          soft_compressed = env + (1 / rat - 1) * (env - thr)\<^sup>2 / (2 * thr * (kn - 1));
          g1 = (if above_threshold then hard_compressed / env else 1)
      in if knee_region then soft_compressed / env else g1)"

definition apply_compression :: "engine \<Rightarrow> real list \<Rightarrow> error + real list" where
  "apply_compression e audio =
     (let params = compressor_params e;
          thr = 10 powr (threshold params / 20);
          rat = ratio params;
          kn = 10 powr (knee params / 20)
      in bind_err (smoothed_envelope e audio) (\<lambda>smoothed.
           let gains = map (gain_reduction thr rat kn) smoothed;
               compressed = map2 (\<lambda>x g. x * g) audio gains;
               makeup = 10 powr (makeup_gain params / 20)
           in Inr (map (\<lambda>x. x * makeup) compressed)))"

subsection \<open>Stereo enhancement and harmonic excitation\<close>

text \<open>
  \<^verbatim>\<open>_enhance_stereo\<close> on a one-dimensional buffer. The two slice assignments need
  equal lengths on both sides, which fails only for a delay of zero samples on a buffer that is
  not empty (\<^verbatim>\<open>audio[:-0]\<close> is empty); numpy then raises a ValueError.
\<close>

definition enhance_stereo :: "engine \<Rightarrow> real list \<Rightarrow> error + real list" where
  "enhance_stereo e audio =
     (let delay_samples = nat (py_int (1 / 1000 * real (sample_rate e)))
      in if delay_samples = 0 \<and> audio \<noteq> [] then Inl BroadcastError
         else
           let left = take delay_samples audio @ take (length audio - delay_samples) audio;
               right = audio
           in bind_err (filtfilt (1, 0, 0) (1, - (5 / 10), 1 / 10) left) (\<lambda>stereo0.
              bind_err (filtfilt (8 / 10, - (8 / 10), 0) (1, - (7 / 10), 2 / 10) right) (\<lambda>stereo1.
              Inr (map2 (\<lambda>l r. (l + r) / 2) stereo0 stereo1))))"

definition apply_harmonic_excitation :: "real list \<Rightarrow> real list" where
  "apply_harmonic_excitation audio =
     map (\<lambda>x. let harmonic = x * (1 + 1 / 10 * tanh (x * 3))
               in x + 3 / 10 * (harmonic - x)) audio"

subsection \<open>Limiter\<close>

text \<open>
  One iteration of the loop of lines 332 to 346: the value of \<open>limited[i]\<close> after it.
  \<^verbatim>\<open>np.max\<close> raises on an empty window and \<^verbatim>\<open>-1/release_samples\<close> divides
  Python numbers.
\<close>

definition limit_sample :: "real \<Rightarrow> int \<Rightarrow> int \<Rightarrow> real list \<Rightarrow> nat \<Rightarrow> error + real" where
  "limit_sample thr release_samples lookahead_samples audio i =
     (let look_ahead_end = min (int i + lookahead_samples) (int (length audio))
      in bind_err (abs_max (py_slice audio i look_ahead_end)) (\<lambda>current_peak.
           if current_peak > thr then
             let g = thr / current_peak
             in if i > 0 then
                  if release_samples = 0 then Inl ZeroDivisionError
                  else
                    let alpha = exp (- 1 / real_of_int release_samples)
                    in Inr (audio ! i * (alpha * g + (1 - alpha) * 1))
                else Inr (audio ! i * g)
           else Inr (audio ! i)))"

definition apply_limiting :: "engine \<Rightarrow> real list \<Rightarrow> error + real list" where
  "apply_limiting e audio =
     (let params = limiter_params e;
          thr = 10 powr (lim_threshold params / 20);
          release_samples = py_int (lim_release params * real (sample_rate e));
          lookahead_samples = py_int (lookahead params * real (sample_rate e))
      in sequence_err
           (map (limit_sample thr release_samples lookahead_samples audio) [0..<length audio]))"

subsection \<open>Loudness\<close>

definition k_weighting :: "real list \<Rightarrow> int \<Rightarrow> error + real list" where
  "k_weighting audio sr =
     bind_err (filtfilt (153512485958697 / 10 ^ 14, - (269169618940638 / 10 ^ 14),
                         119839281085285 / 10 ^ 14)
                        (1, - (169065929318241 / 10 ^ 14), 73248077421585 / 10 ^ 14) audio)
       (\<lambda>audio_pre.
          filtfilt (1, - 2, 1)
                   (1, - (199004745483398 / 10 ^ 14), 99007225036621 / 10 ^ 14) audio_pre)"

text \<open>\<^verbatim>\<open>np.mean(k_weighted**2)\<close>.\<close>

definition mean_square :: "real list \<Rightarrow> real" where
  "mean_square xs = sum_list (map (\<lambda>x. x\<^sup>2) xs) / real (length xs)"

definition calculate_lufs :: "real list \<Rightarrow> int \<Rightarrow> error + real" where
  "calculate_lufs audio sr =
     bind_err (k_weighting audio sr) (\<lambda>k_weighted.
       Inr (- (691 / 1000) + 10 * log 10 (mean_square k_weighted + 1 / 10 ^ 12)))"

definition normalize_loudness :: "engine \<Rightarrow> real list \<Rightarrow> int \<Rightarrow> error + real list" where
  "normalize_loudness e audio sr =
     bind_err (calculate_lufs audio sr) (\<lambda>current_lufs.
       let gain_needed = target_lufs e - current_lufs;
           linear_gain = 10 powr (gain_needed / 20)
       in Inr (map (\<lambda>x. x * linear_gain) audio))"

subsection \<open>The pipeline\<close>

text \<open>
  \<^verbatim>\<open>master_track\<close>: the result, or the exception that leaves it, and the engine
  afterwards. The two logging lines evaluate \<^verbatim>\<open>np.max(np.abs(audio))\<close>, which raises on
  an empty array and has no other effect. The handler logs and raises the exception again.
\<close>

definition master_track ::
  "(real list \<Rightarrow> int \<Rightarrow> error + real) \<Rightarrow> engine \<Rightarrow> sample list \<Rightarrow> int
     \<Rightarrow> (error + real list) \<times> engine"
where
  "master_track librosa e audio sr =
     (if audio = [] then (Inl ZeroSizeArray, e)
      else
        case validate_input audio of
          Inl err \<Rightarrow> (Inl err, e)
        | Inr audio1 \<Rightarrow>
            (case apply_multiband_eq librosa e audio1 sr of (r, e') \<Rightarrow>
               (bind_err r (\<lambda>audio2.
                bind_err (apply_compression e' audio2) (\<lambda>audio3.
                bind_err (enhance_stereo e' audio3) (\<lambda>audio4.
                bind_err (apply_limiting e' (apply_harmonic_excitation audio4)) (\<lambda>audio6.
                bind_err (normalize_loudness e' audio6 sr) (\<lambda>audio7.
                bind_err (abs_max audio7) (\<lambda>final_peak. Inr audio7)))))), e')))"

section \<open>Properties of the retune\<close>

lemma eq_retune_idem:
  "eq_retune c (eq_retune c p) = eq_retune c p"
  by (simp add: eq_retune_def)

lemma fold_eq_retune_dark:
  "\<forall>c\<in>set cs. c < 1000 \<Longrightarrow> c0 < 1000 \<Longrightarrow>
     fold eq_retune cs (eq_retune c0 p) = eq_retune c0 p"
  by (induction cs) (simp_all add: eq_retune_def)

lemma fold_eq_retune_bright:
  "\<forall>c\<in>set cs. c > 4000 \<Longrightarrow> c0 > 4000 \<Longrightarrow>
     fold eq_retune cs (eq_retune c0 p) = eq_retune c0 p"
  by (induction cs) (simp_all add: eq_retune_def)

text \<open>
  Claim C4, as amended. The retune assigns: for a centroid below 1000 Hz the gain of the
  high_mid band becomes 1.5 dB and that of the high_shelf band 2.0 dB, whatever they were
  before; for a centroid above 4000 Hz the gain of the low_mid band becomes 1.0 dB; every other
  gain, and every frequency and Q, is kept, and for a centroid between 1000 and 4000 Hz the
  whole parameter set is kept.
\<close>

theorem eq_retune_assigns:
  "(c < 1000 \<longrightarrow>
      eq_retune c p = p\<lparr>high_mid := (high_mid p)\<lparr>gain := 3/2\<rparr>,
                        high_shelf := (high_shelf p)\<lparr>gain := 2\<rparr>\<rparr>
      \<and> gain (high_mid (eq_retune c p)) = 3/2
      \<and> gain (high_shelf (eq_retune c p)) = 2
      \<and> low_shelf (eq_retune c p) = low_shelf p
      \<and> low_mid (eq_retune c p) = low_mid p
      \<and> mid (eq_retune c p) = mid p)
   \<and> (c > 4000 \<longrightarrow>
      eq_retune c p = p\<lparr>low_mid := (low_mid p)\<lparr>gain := 1\<rparr>\<rparr>
      \<and> gain (low_mid (eq_retune c p)) = 1
      \<and> low_shelf (eq_retune c p) = low_shelf p
      \<and> mid (eq_retune c p) = mid p
      \<and> high_mid (eq_retune c p) = high_mid p
      \<and> high_shelf (eq_retune c p) = high_shelf p)
   \<and> (1000 \<le> c \<and> c \<le> 4000 \<longrightarrow> eq_retune c p = p)"
  by (simp add: eq_retune_def)

theorem eq_retune_assigns_witness:
  "gain (high_mid (eq_retune 500 init_eq_params)) = 3/2
   \<and> gain (high_shelf (eq_retune 500 init_eq_params)) = 2
   \<and> gain (low_mid (eq_retune 5000 init_eq_params)) = 1
   \<and> eq_retune 2000 init_eq_params = init_eq_params"
  using eq_retune_assigns [of 500 init_eq_params]
        eq_retune_assigns [of 5000 init_eq_params]
        eq_retune_assigns [of 2000 init_eq_params]
  by simp

text \<open>
  Claim C4, as stated, fails: on an engine that has already seen one dark buffer the high_mid
  gain is 1.5 dB, and a second dark buffer leaves it at 1.5 dB instead of raising it by 1.5 dB
  to 3.0 dB.
\<close>

theorem eq_retune_boost_counterexample:
  "gain (high_mid (eq_retune 500 (eq_retune 500 init_eq_params)))
     \<noteq> gain (high_mid (eq_retune 500 init_eq_params)) + 3/2"
  by (simp add: eq_retune_def init_eq_params_def)

lemma validate_input_nonempty:
  "validate_input audio = Inr audio1 \<Longrightarrow> audio \<noteq> []"
  by (auto simp add: validate_input_def nan_to_num_def abs_max_def bind_err_def)

lemma mean_spectral_centroid_returns:
  "sr \<noteq> 0 \<Longrightarrow> mean_spectral_centroid (\<lambda>a s. Inr c) audio sr = Inr c"
  by (simp add: mean_spectral_centroid_def bind_err_def)


lemma master_track_state:
  assumes "validate_input audio = Inr audio1"
    and "mean_spectral_centroid cen audio1 sr = Inr c"
  shows "snd (master_track cen e audio sr)
           = e\<lparr>eq_params := eq_retune c (eq_params e)\<rparr>"
  using assms validate_input_nonempty [OF assms(1)]
  by (simp add: master_track_def apply_multiband_eq_def Let_def)

lemma master_track_analysis_raises:
  assumes "validate_input audio = Inr audio1"
    and "mean_spectral_centroid cen audio1 sr = Inl err"
  shows "master_track cen e audio sr = (Inl err, e)"
  using assms validate_input_nonempty [OF assms(1)]
  by (simp add: master_track_def apply_multiband_eq_def Let_def bind_err_def)

text \<open>
  Claim C10. The retune is idempotent and does not accumulate: after any non-empty run of
  analyses of dark buffers (centroid below 1000 Hz) the high_mid gain is exactly 1.5 dB and the
  high_shelf gain exactly 2.0 dB, after any non-empty run of analyses of bright buffers
  (centroid above 4000 Hz) the low_mid gain is exactly 1.0 dB, and in both cases the parameters
  are those that the first analysis alone produced. Accordingly a second call of
  \<^verbatim>\<open>master_track\<close> on the same engine, with a buffer of the same centroid class as the
  first, leaves the engine as the first call left it. The centroids of the two calls are the
  values that the spectral analysis returned.
\<close>

theorem eq_retune_non_accumulating:
  "(cs \<noteq> [] \<and> (\<forall>c\<in>set cs. c < 1000) \<longrightarrow>
      gain (high_mid (fold eq_retune cs p)) = 3/2
      \<and> gain (high_shelf (fold eq_retune cs p)) = 2
      \<and> fold eq_retune cs p = eq_retune (hd cs) p)
   \<and> (cs \<noteq> [] \<and> (\<forall>c\<in>set cs. c > 4000) \<longrightarrow>
      gain (low_mid (fold eq_retune cs p)) = 1
      \<and> fold eq_retune cs p = eq_retune (hd cs) p)
   \<and> (validate_input a = Inr a1 \<and> validate_input b = Inr b1
        \<and> mean_spectral_centroid cen a1 sra = Inr ca
        \<and> mean_spectral_centroid cen b1 srb = Inr cb
        \<and> (ca < 1000 \<and> cb < 1000 \<or> ca > 4000 \<and> cb > 4000) \<longrightarrow>
      snd (master_track cen (snd (master_track cen e a sra)) b srb)
        = snd (master_track cen e a sra))"
proof -
  have dark: "gain (high_mid (fold eq_retune cs p)) = 3/2
      \<and> gain (high_shelf (fold eq_retune cs p)) = 2
      \<and> fold eq_retune cs p = eq_retune (hd cs) p"
    if a: "cs \<noteq> [] \<and> (\<forall>c\<in>set cs. c < 1000)"
  proof -
    from a obtain c0 cs' where cs: "cs = c0 # cs'"
      by (cases cs) simp_all
    from a cs have c0: "c0 < 1000" and rest: "\<forall>c\<in>set cs'. c < 1000"
      by simp_all
    have f: "fold eq_retune cs p = eq_retune c0 p"
      using fold_eq_retune_dark [OF rest c0] cs by simp
    have v: "gain (high_mid (eq_retune c0 p)) = 3/2" "gain (high_shelf (eq_retune c0 p)) = 2"
      using c0 by (simp_all add: eq_retune_def)
    show ?thesis unfolding f using v cs by simp
  qed
  have bright: "gain (low_mid (fold eq_retune cs p)) = 1
      \<and> fold eq_retune cs p = eq_retune (hd cs) p"
    if a: "cs \<noteq> [] \<and> (\<forall>c\<in>set cs. c > 4000)"
  proof -
    from a obtain c0 cs' where cs: "cs = c0 # cs'"
      by (cases cs) simp_all
    from a cs have c0: "c0 > 4000" and rest: "\<forall>c\<in>set cs'. c > 4000"
      by simp_all
    have f: "fold eq_retune cs p = eq_retune c0 p"
      using fold_eq_retune_bright [OF rest c0] cs by simp
    have v: "gain (low_mid (eq_retune c0 p)) = 1"
      using c0 by (simp add: eq_retune_def)
    show ?thesis unfolding f using v cs by simp
  qed
  have calls: "snd (master_track cen (snd (master_track cen e a sra)) b srb)
        = snd (master_track cen e a sra)"
    if a: "validate_input a = Inr a1 \<and> validate_input b = Inr b1
        \<and> mean_spectral_centroid cen a1 sra = Inr ca
        \<and> mean_spectral_centroid cen b1 srb = Inr cb
        \<and> (ca < 1000 \<and> cb < 1000 \<or> ca > 4000 \<and> cb > 4000)"
  proof -
    from a have va: "validate_input a = Inr a1" and vb: "validate_input b = Inr b1"
      and ma: "mean_spectral_centroid cen a1 sra = Inr ca"
      and mb: "mean_spectral_centroid cen b1 srb = Inr cb"
      and cl: "ca < 1000 \<and> cb < 1000 \<or> ca > 4000 \<and> cb > 4000"
      by simp_all
    have "eq_retune cb (eq_retune ca (eq_params e)) = eq_retune ca (eq_params e)"
      using cl by (auto simp add: eq_retune_def)
    then show ?thesis
      unfolding master_track_state [OF va ma] master_track_state [OF vb mb] by simp
  qed
  from dark bright calls show ?thesis by blast
qed

theorem eq_retune_non_accumulating_witness:
  "gain (high_mid (fold eq_retune [500, 300, 900] init_eq_params)) = 3/2
   \<and> gain (high_shelf (fold eq_retune [500, 300, 900] init_eq_params)) = 2
   \<and> fold eq_retune [500, 300, 900] init_eq_params = eq_retune 500 init_eq_params
   \<and> gain (low_mid (fold eq_retune [5000, 6000] init_eq_params)) = 1
   \<and> fold eq_retune [5000, 6000] init_eq_params = eq_retune 5000 init_eq_params
   \<and> snd (master_track (\<lambda>a s. Inr 500)
             (snd (master_track (\<lambda>a s. Inr 500) (MasteringEngine (- 14) (- 1)) [Fin (1 / 2)] 22050))
             [Fin (1 / 4)] 22050)
       = snd (master_track (\<lambda>a s. Inr 500) (MasteringEngine (- 14) (- 1)) [Fin (1 / 2)] 22050)"
proof -
  let ?c = "\<lambda>(a :: real list) (s :: int). Inr 500 :: error + real"
  have dark: "[500, 300, 900] \<noteq> [] \<and> (\<forall>c\<in>set [500, 300, 900 :: real]. c < 1000)"
    by simp
  have bright: "[5000, 6000] \<noteq> [] \<and> (\<forall>c\<in>set [5000, 6000 :: real]. c > 4000)"
    by simp
  have calls: "validate_input [Fin (1 / 2)] = Inr [1 / 2] \<and> validate_input [Fin (1 / 4)] = Inr [1 / 4]
        \<and> mean_spectral_centroid ?c [1 / 2] 22050 = Inr 500
        \<and> mean_spectral_centroid ?c [1 / 4] 22050 = Inr 500
        \<and> ((500 :: real) < 1000 \<and> (500 :: real) < 1000
            \<or> (500 :: real) > 4000 \<and> (500 :: real) > 4000)"
    by (simp add: validate_input_def nan_to_num_def abs_max_def bind_err_def Let_def
          mean_spectral_centroid_def)
  note d = eq_retune_non_accumulating
             [where cs = "[500, 300, 900]" and p = init_eq_params, THEN conjunct1, THEN mp, OF dark]
  note b = eq_retune_non_accumulating
             [where cs = "[5000, 6000]" and p = init_eq_params, THEN conjunct2, THEN conjunct1,
              THEN mp, OF bright]
  note c = eq_retune_non_accumulating
             [where cen = ?c and e = "MasteringEngine (- 14) (- 1)", THEN conjunct2, THEN conjunct2,
              THEN mp, OF calls]
  from d b c show ?thesis
    apply (simp (no_asm_use) only: list.sel)
    apply (elim conjE)
    apply (intro conjI; assumption)
    done
qed

section \<open>Properties of the compressor\<close>

lemma gain_reduction_below_knee:
  "0 \<le> kdb \<Longrightarrow> env < 10 powr (tdb / 20) / 10 powr (kdb / 20) \<Longrightarrow>
     gain_reduction (10 powr (tdb / 20)) rat (10 powr (kdb / 20)) env = 1"
proof -
  assume k: "0 \<le> kdb" and b: "env < 10 powr (tdb / 20) / 10 powr (kdb / 20)"
  have "1 \<le> (10::real) powr (kdb / 20)" using k by (simp add: ge_one_powr_ge_zero)
  then have "10 powr (tdb / 20) / 10 powr (kdb / 20) \<le> (10::real) powr (tdb / 20)"
    by (simp add: divide_le_eq)
  with b have "\<not> env > 10 powr (tdb / 20)" by simp
  with b show ?thesis by (simp add: gain_reduction_def Let_def)
qed

lemma gain_reduction_above:
  "env > thr \<Longrightarrow> gain_reduction thr rat kn env = (thr + (env - thr) / rat) / env"
  by (simp add: gain_reduction_def Let_def add.commute)

lemma gain_reduction_zero:
  "gain_reduction (10 powr (tdb / 20)) rat (10 powr (kdb / 20)) 0 = 1"
  by (simp add: gain_reduction_def Let_def)

lemma envelope_loop_length:
  "length (envelope_loop aa ar prev xs) = length xs"
  by (induction xs arbitrary: prev) (simp_all add: Let_def)

lemma smoothed_envelope_length:
  "smoothed_envelope e audio = Inr env \<Longrightarrow> length env = length audio"
  by (auto simp add: smoothed_envelope_def Let_def envelope_loop_length
           split: if_splits list.splits)

lemma map2_unit_gain:
  "length gs = length xs \<Longrightarrow> \<forall>g\<in>set gs. g = (1::real) \<Longrightarrow>
     map2 (\<lambda>x g. x * g) xs gs = xs"
proof (induction xs arbitrary: gs)
  case Nil
  then show ?case by simp
next
  case (Cons x xs)
  then obtain g gs' where "gs = g # gs'" by (cases gs) simp_all
  with Cons show ?case by simp
qed

lemma apply_compression_transparent_general:
  assumes env: "smoothed_envelope e audio = Inr env"
    and knee: "0 \<le> knee (compressor_params e)"
    and below: "\<forall>s\<in>set env. s < 10 powr (threshold (compressor_params e) / 20)
                                  / 10 powr (knee (compressor_params e) / 20)"
  shows "apply_compression e audio =
           Inr (map (\<lambda>x. x * 10 powr (makeup_gain (compressor_params e) / 20)) audio)"
proof -
  let ?G = "gain_reduction (10 powr (threshold (compressor_params e) / 20))
              (ratio (compressor_params e)) (10 powr (knee (compressor_params e) / 20))"
  have one: "\<forall>g\<in>set (map ?G env). g = 1"
    using below knee by (auto simp add: gain_reduction_below_knee)
  have len: "length (map ?G env) = length audio"
    using smoothed_envelope_length [OF env] by simp
  have "map2 (\<lambda>x g. x * g) audio (map ?G env) = audio"
    using map2_unit_gain [OF len one] .
  moreover have "apply_compression e audio =
      Inr (map (\<lambda>x. x * 10 powr (makeup_gain (compressor_params e) / 20))
             (map2 (\<lambda>x g. x * g) audio (map ?G env)))"
    unfolding apply_compression_def Let_def bind_err_def env by (simp only: sum.case)
  ultimately show ?thesis by (simp only:)
qed

lemma envelope_loop_zero:
  "envelope_loop aa ar 0 (replicate n 0) = replicate n 0"
  by (induction n) (simp_all add: Let_def)

lemma threshold_over_knee: "(10::real) powr (- 18 / 20) / 10 powr (3 / 20) = 10 powr (- 21 / 20)"
  by (simp add: powr_diff [symmetric])

lemma threshold_bounds:
  "(1 / 10 :: real) < 10 powr (- 18 / 20)"
  "(10::real) powr (- 18 / 20) / 10 powr (3 / 20) < 1 / 10"
  "(1 / 100 :: real) < 10 powr (- 18 / 20) / 10 powr (3 / 20)"
  "(0::real) < 10 powr (- 18 / 20)"
  "(1::real) < 10 powr (3 / 20)"
proof -
  have a: "(1 / 10 :: real) = 10 powr (- 1)" by (simp add: powr_minus_divide)
  have b: "(1 / 100 :: real) = 10 powr (- 2)"
    by (simp add: powr_minus_divide)
  show "(1 / 10 :: real) < 10 powr (- 18 / 20)"
    unfolding a by (rule powr_less_mono) simp_all
  show "(10::real) powr (- 18 / 20) / 10 powr (3 / 20) < 1 / 10"
    unfolding threshold_over_knee a by (rule powr_less_mono) simp_all
  show "(1 / 100 :: real) < 10 powr (- 18 / 20) / 10 powr (3 / 20)"
    unfolding threshold_over_knee b by (rule powr_less_mono) simp_all
  show "(0::real) < 10 powr (- 18 / 20)" by simp
  have "(10::real) powr 0 < 10 powr (3 / 20)" by (rule powr_less_mono) simp_all
  then show "(1::real) < 10 powr (3 / 20)" by simp
qed

lemma gain_reduction_knee_lt_one:
  assumes "0 < thr" "1 < kn" "1 < rat" "thr / kn \<le> env" "env < thr" "0 < env"
  shows "gain_reduction thr rat kn env < 1"
proof -
  have neg: "1 / rat - 1 < 0" using assms by simp
  have sq: "0 < (env - thr)\<^sup>2" using assms by simp
  have den: "0 < 2 * thr * (kn - 1)" using assms by simp
  have "(1 / rat - 1) * (env - thr)\<^sup>2 / (2 * thr * (kn - 1)) < 0"
    using neg sq den by (simp add: divide_neg_pos mult_neg_pos)
  then have "env + (1 / rat - 1) * (env - thr)\<^sup>2 / (2 * thr * (kn - 1)) < env" by simp
  then have "(env + (1 / rat - 1) * (env - thr)\<^sup>2 / (2 * thr * (kn - 1))) / env < 1"
    using assms by (simp add: divide_less_eq)
  moreover have "gain_reduction thr rat kn env =
      (env + (1 / rat - 1) * (env - thr)\<^sup>2 / (2 * thr * (kn - 1))) / env"
    using assms by (simp add: gain_reduction_def Let_def)
  ultimately show ?thesis by simp
qed

lemma apply_compression_unfold:
  "smoothed_envelope e audio = Inr senv \<Longrightarrow>
   apply_compression e audio =
     Inr (map (\<lambda>x. x * 10 powr (makeup_gain (compressor_params e) / 20))
            (map2 (\<lambda>x g. x * g) audio
               (map (gain_reduction (10 powr (threshold (compressor_params e) / 20))
                       (ratio (compressor_params e))
                       (10 powr (knee (compressor_params e) / 20))) senv)))"
  unfolding apply_compression_def Let_def bind_err_def by (simp only: sum.case)

lemma smoothed_envelope_single:
  "smoothed_envelope (MasteringEngine lufs pk) [x] = Inr [\<bar>x\<bar>]"
  by (simp add: smoothed_envelope_def MasteringEngine_def init_compressor_params_def
        py_int_def Let_def)

text \<open>
  Claim C3, as amended. With the compressor's default parameters, for every buffer whose
  smoothed envelope stays below threshold/knee, that is below \<open>10^(-18/20) / 10^(3/20)\<close>,
  the output of \<^verbatim>\<open>_apply_compression\<close> is the input times the makeup gain
  \<open>10^(2/20)\<close>, sample by sample.
\<close>

theorem compressor_transparent_below_knee:
  assumes "compressor_params e = init_compressor_params"
    and "smoothed_envelope e audio = Inr senv"
    and "\<forall>s\<in>set senv. s < 10 powr (- 18 / 20) / 10 powr (3 / 20)"
  shows "apply_compression e audio = Inr (map (\<lambda>x. x * 10 powr (2 / 20)) audio)"
  using apply_compression_transparent_general [of e audio senv] assms
  by (simp add: init_compressor_params_def)

theorem compressor_transparent_below_knee_witness:
  "smoothed_envelope (MasteringEngine (- 14) (- 1)) [1 / 100] = Inr [1 / 100]
   \<and> (1 / 100 :: real) < 10 powr (- 18 / 20) / 10 powr (3 / 20)
   \<and> apply_compression (MasteringEngine (- 14) (- 1)) [1 / 100]
       = Inr [1 / 100 * 10 powr (2 / 20)]"
proof -
  have p: "compressor_params (MasteringEngine (- 14) (- 1)) = init_compressor_params"
    by (simp add: MasteringEngine_def)
  have s: "smoothed_envelope (MasteringEngine (- 14) (- 1)) [1 / 100] = Inr [1 / 100]"
    using smoothed_envelope_single [of "- 14" "- 1" "1 / 100"] by simp
  have b: "\<forall>s\<in>set [1 / 100 :: real]. s < 10 powr (- 18 / 20) / 10 powr (3 / 20)"
    using threshold_bounds(3) by simp
  have "apply_compression (MasteringEngine (- 14) (- 1)) [1 / 100]
       = Inr (map (\<lambda>x. x * 10 powr (2 / 20)) [1 / 100])"
    by (rule compressor_transparent_below_knee [OF p s b])
  then show ?thesis using s threshold_bounds(3) by simp
qed

text \<open>
  Claim C3, as stated, fails. The one-sample buffer \<open>[0.1]\<close> has the smoothed envelope
  \<open>[0.1]\<close>, which does not exceed the threshold \<open>10^(-18/20)\<close> (about 0.126) but lies in
  the soft knee above \<open>10^(-21/20)\<close> (about 0.089): the gain there is below one, so the
  output is not the makeup gain times the input.
\<close>

theorem compressor_transparency_counterexample:
  "smoothed_envelope (MasteringEngine (- 14) (- 1)) [1 / 10] = Inr [1 / 10]
   \<and> (1 / 10 :: real) \<le> 10 powr (- 18 / 20)
   \<and> apply_compression (MasteringEngine (- 14) (- 1)) [1 / 10]
       \<noteq> Inr [10 powr (2 / 20) * (1 / 10)]"
proof -
  let ?E = "MasteringEngine (- 14) (- 1)"
  let ?G = "gain_reduction (10 powr (- 18 / 20)) (5 / 2) (10 powr (3 / 20)) (1 / 10)"
  have s: "smoothed_envelope ?E [1 / 10] = Inr [1 / 10]"
    using smoothed_envelope_single [of "- 14" "- 1" "1 / 10"] by simp
  have g: "?G < 1"
    by (rule gain_reduction_knee_lt_one)
       (use threshold_bounds in \<open>simp_all add: less_imp_le\<close>)
  have out: "apply_compression ?E [1 / 10] = Inr [1 / 10 * ?G * 10 powr (2 / 20)]"
    using apply_compression_unfold [OF s]
    by (simp add: MasteringEngine_def init_compressor_params_def)
  have "1 / 10 * ?G * 10 powr (2 / 20) \<noteq> 10 powr (2 / 20) * (1 / 10)"
    using g by simp
  then show ?thesis using s out threshold_bounds(1) by (simp add: less_imp_le)
qed

lemma smoothed_envelope_zeros:
  assumes "compressor_params e = init_compressor_params" "sample_rate e = 22050" "0 < n"
  shows "smoothed_envelope e (replicate n 0) = Inr (replicate n 0)"
proof -
  from \<open>0 < n\<close> obtain m where n: "n = Suc m" by (cases n) simp_all
  show ?thesis
    using assms(1,2) unfolding n
    by (simp add: smoothed_envelope_def init_compressor_params_def py_int_def Let_def
          envelope_loop_zero)
qed

lemma map2_zero_left:
  "length gs = n \<Longrightarrow> map2 (\<lambda>x g. x * g) (replicate n (0::real)) gs = replicate n 0"
proof (induction n arbitrary: gs)
  case 0
  then show ?case by simp
next
  case (Suc n)
  then obtain g gs' where "gs = g # gs'" by (cases gs) simp_all
  with Suc show ?case by simp
qed

text \<open>
  Claim C6. With the compressor's default parameters (threshold \<open>T\<close>, knee \<open>K\<close>, ratio
  \<open>R\<close> in linear terms) the gain selected for a sample of the smoothed envelope is 1 when
  the envelope is below \<open>T / K\<close>, it is 1 when the envelope is exactly zero, and it is
  \<open>(T + (env - T) / R) / env\<close> when the envelope exceeds \<open>T\<close>; a buffer of zeros, whose
  envelope is zero everywhere, leaves the stage as zeros.
\<close>

theorem compressor_gain_total:
  fixes e :: engine and env :: real and n :: nat
  defines "T \<equiv> 10 powr (threshold (compressor_params e) / 20)"
    and "K \<equiv> 10 powr (knee (compressor_params e) / 20)"
    and "R \<equiv> ratio (compressor_params e)"
  assumes "compressor_params e = init_compressor_params" and "sample_rate e = 22050"
  shows "(env < T / K \<longrightarrow> gain_reduction T R K env = 1)
       \<and> gain_reduction T R K 0 = 1
       \<and> (T < env \<longrightarrow> gain_reduction T R K env = (T + (env - T) / R) / env)
       \<and> (0 < n \<longrightarrow> apply_compression e (replicate n 0) = Inr (replicate n 0))"
proof -
  have k: "0 \<le> knee (compressor_params e)"
    using assms by (simp add: init_compressor_params_def)
  have 1: "env < T / K \<longrightarrow> gain_reduction T R K env = 1"
    unfolding T_def K_def using gain_reduction_below_knee [OF k] by blast
  have 2: "gain_reduction T R K 0 = 1"
    unfolding T_def K_def by (rule gain_reduction_zero)
  have 3: "T < env \<longrightarrow> gain_reduction T R K env = (T + (env - T) / R) / env"
    using gain_reduction_above by blast
  have 4: "apply_compression e (replicate n 0) = Inr (replicate n 0)" if "0 < n"
  proof -
    have s: "smoothed_envelope e (replicate n 0) = Inr (replicate n 0)"
      using smoothed_envelope_zeros assms that by blast
    show ?thesis
      unfolding apply_compression_unfold [OF s] by (simp add: map2_zero_left)
  qed
  from 1 2 3 4 show ?thesis by blast
qed

theorem compressor_gain_total_witness:
  "gain_reduction (10 powr (- 18 / 20)) (5 / 2) (10 powr (3 / 20)) (1 / 100) = 1
   \<and> gain_reduction (10 powr (- 18 / 20)) (5 / 2) (10 powr (3 / 20)) 0 = 1
   \<and> gain_reduction (10 powr (- 18 / 20)) (5 / 2) (10 powr (3 / 20)) 1
        = (10 powr (- 18 / 20) + (1 - 10 powr (- 18 / 20)) / (5 / 2)) / 1
   \<and> apply_compression (MasteringEngine (- 14) (- 1)) (replicate 3 0) = Inr (replicate 3 0)"
proof -
  have p: "compressor_params (MasteringEngine (- 14) (- 1)) = init_compressor_params"
    and r: "sample_rate (MasteringEngine (- 14) (- 1)) = 22050"
    by (simp_all add: MasteringEngine_def)
  have lt1: "(10::real) powr (- 18 / 20) < 1"
  proof -
    have "(10::real) powr (- 18 / 20) < 10 powr 0" by (rule powr_less_mono) simp_all
    then show ?thesis by simp
  qed
  note a = compressor_gain_total [OF p r, of "1 / 100" 3]
  note b = compressor_gain_total [OF p r, of 1 3]
  have pa: "threshold (compressor_params (MasteringEngine (- 14) (- 1))) = - 18"
    "knee (compressor_params (MasteringEngine (- 14) (- 1))) = 3"
    "ratio (compressor_params (MasteringEngine (- 14) (- 1))) = 5 / 2"
    by (simp_all add: MasteringEngine_def init_compressor_params_def)
  from a b show ?thesis
    unfolding pa using threshold_bounds(3) lt1 by simp
qed

section \<open>Properties of the limiter\<close>

lemma sequence_err_map:
  "\<forall>x\<in>set xs. \<exists>v. f x = Inr v \<Longrightarrow>
     \<exists>vs. sequence_err (map f xs) = Inr vs \<and> length vs = length xs
          \<and> (\<forall>k<length xs. f (xs ! k) = Inr (vs ! k))"
proof (induction xs)
  case Nil
  then show ?case by simp
next
  case (Cons x xs)
  then obtain v where v: "f x = Inr v" by auto
  from Cons obtain vs where vs: "sequence_err (map f xs) = Inr vs" "length vs = length xs"
    "\<forall>k<length xs. f (xs ! k) = Inr (vs ! k)" by auto
  have "sequence_err (map f (x # xs)) = Inr (v # vs)" using v vs by simp
  moreover have "\<forall>k<length (x # xs). f ((x # xs) ! k) = Inr ((v # vs) ! k)"
    using v vs by (auto simp add: nth_Cons split: nat.splits)
  ultimately show ?case using vs by auto
qed

lemma py_slice_window:
  assumes "i < length audio" "0 < la"
  shows "py_slice audio i (min (int i + la) (int (length audio))) = take (nat la) (drop i audio)"
proof -
  let ?n = "int (length audio)"
  let ?stop = "min (int i + la) ?n"
  have s0: "\<not> ?stop < 0" using assms by simp
  have "nat (min ?stop ?n - int i) = min (nat la) (length audio - i)"
    using assms by (simp add: min_def) linarith
  then have "py_slice audio i ?stop = take (min (nat la) (length (drop i audio))) (drop i audio)"
    using s0 by (simp add: py_slice_def Let_def)
  also have "\<dots> = take (nat la) (drop i audio)"
    by (simp add: min_def)
  finally show ?thesis .
qed

lemma window_elem:
  assumes "x \<in> set (take k (drop i xs))"
  shows "\<exists>j. x = xs ! j \<and> i \<le> j \<and> j < min (i + k) (length xs)"
proof -
  from assms obtain m where m: "m < length (take k (drop i xs))" "take k (drop i xs) ! m = x"
    by (auto simp add: in_set_conv_nth)
  then have mk: "m < k" and mn: "i + m < length xs" by auto
  have "take k (drop i xs) ! m = xs ! (i + m)"
    using mk mn by simp
  with m mk mn have "x = xs ! (i + m) \<and> i \<le> i + m \<and> i + m < min (i + k) (length xs)"
    by simp
  then show ?thesis by blast
qed

lemma limit_sample_window:
  assumes "i < length audio" "0 < la"
  shows "limit_sample thr rs la audio i =
     (let current_peak = Max (set (map abs (take (nat la) (drop i audio)))) in
      if current_peak > thr then
        if i > 0 then
          if rs = 0 then Inl ZeroDivisionError
          else Inr (audio ! i * (exp (- 1 / real_of_int rs) * (thr / current_peak)
                                 + (1 - exp (- 1 / real_of_int rs)) * 1))
        else Inr (audio ! i * (thr / current_peak))
      else Inr (audio ! i))"
proof -
  have w: "py_slice audio i (min (int i + la) (int (length audio))) = take (nat la) (drop i audio)"
    using assms by (rule py_slice_window)
  have ne: "take (nat la) (drop i audio) \<noteq> []"
    using assms by simp
  show ?thesis
    unfolding limit_sample_def Let_def w abs_max_def bind_err_def
    by (simp only: ne if_False sum.case)
qed

lemma limit_sample_succeeds:
  assumes "i < length audio" "0 < la" "rs \<noteq> 0"
  shows "\<exists>v. limit_sample thr rs la audio i = Inr v"
  unfolding limit_sample_window [OF assms(1,2)] Let_def using assms(3)
  by (simp only: if_False) (metis (full_types))

lemma limit_sample_unchanged:
  assumes i: "i < length audio" and la: "0 < la"
    and quiet: "\<forall>j\<in>{i..<min (i + nat la) (length audio)}. \<bar>audio ! j\<bar> \<le> thr"
  shows "limit_sample thr rs la audio i = Inr (audio ! i)"
proof -
  let ?w = "take (nat la) (drop i audio)"
  have ne: "?w \<noteq> []" using i la by simp
  have all: "\<forall>x\<in>set ?w. \<bar>x\<bar> \<le> thr"
  proof
    fix x assume "x \<in> set ?w"
    then obtain j where j: "x = audio ! j" "i \<le> j" "j < min (i + nat la) (length audio)"
      using window_elem [of x "nat la" i audio] by blast
    from j(2,3) have "j \<in> {i..<min (i + nat la) (length audio)}" by simp
    with quiet j(1) show "\<bar>x\<bar> \<le> thr" by blast
  qed
  have "finite (set (map abs ?w))" "set (map abs ?w) \<noteq> {}"
    using ne by simp_all
  then have "Max (set (map abs ?w)) \<le> thr \<longleftrightarrow> (\<forall>a\<in>set (map abs ?w). a \<le> thr)"
    by (rule Max_le_iff)
  moreover have "\<forall>a\<in>set (map abs ?w). a \<le> thr"
    using all by (simp del: set_map add: list.set_map)
  ultimately have "\<not> Max (set (map abs ?w)) > thr" by (simp only: not_less)
  then show ?thesis
    unfolding limit_sample_window [OF i la] Let_def by (simp only: if_False)
qed

lemma apply_limiting_default:
  assumes "limiter_params e = init_limiter_params" "sample_rate e = 22050"
  shows "apply_limiting e audio =
     sequence_err (map (limit_sample (10 powr (- (1 / 2) / 20)) 110 44 audio) [0..<length audio])"
  using assms
  by (simp add: apply_limiting_def init_limiter_params_def py_int_def Let_def)

lemma limiter_threshold_bounds:
  "(0::real) < 10 powr (- (1 / 2) / 20)"
  "(10::real) powr (- (1 / 2) / 20) < 1"
  "(1 / 10 :: real) \<le> 10 powr (- (1 / 2) / 20)"
proof -
  show "(0::real) < 10 powr (- (1 / 2) / 20)" by simp
  have "(10::real) powr (- (1 / 2) / 20) < 10 powr 0" by (rule powr_less_mono) simp_all
  then show "(10::real) powr (- (1 / 2) / 20) < 1" by simp
  have "(10::real) powr (- 1) \<le> 10 powr (- (1 / 2) / 20)" by (rule powr_mono) simp_all
  then show "(1 / 10 :: real) \<le> 10 powr (- (1 / 2) / 20)" by (simp add: powr_minus_divide)
qed

lemma release_alpha_bounds:
  "0 < exp (- 1 / (110::real))" "exp (- 1 / (110::real)) \<le> 110 / 111"
proof -
  show "0 < exp (- 1 / (110::real))" by simp
  have "1 + 1 / (110::real) \<le> exp (1 / 110)" by (rule exp_ge_add_one_self)
  then have "(111 / 110 :: real) \<le> exp (1 / 110)" by simp
  then have "inverse (exp (1 / 110 :: real)) \<le> inverse (111 / 110)"
    by (rule le_imp_inverse_le) simp
  moreover have "exp (- 1 / (110::real)) = inverse (exp (1 / 110))"
    using exp_minus [of "1 / (110::real)"] by simp
  ultimately show "exp (- 1 / (110::real)) \<le> 110 / 111" by simp
qed

text \<open>
  Claim C9. With the limiter's default parameters (44 samples of lookahead) the stage returns a
  buffer of the input's length, and at every index \<open>i\<close> whose window
  \<open>[i, min (i + 44) (length audio))\<close> holds no sample above the threshold \<open>10^(-0.5/20)\<close>
  in absolute value, the output sample equals the input sample.
\<close>

theorem limiter_leaves_quiet_samples:
  assumes "limiter_params e = init_limiter_params" and "sample_rate e = 22050"
  shows "\<exists>limited. apply_limiting e audio = Inr limited \<and> length limited = length audio
     \<and> (\<forall>i<length audio.
           (\<forall>j\<in>{i..<min (i + 44) (length audio)}. \<bar>audio ! j\<bar> \<le> 10 powr (- (1 / 2) / 20))
           \<longrightarrow> limited ! i = audio ! i)"
proof -
  let ?f = "limit_sample (10 powr (- (1 / 2) / 20)) 110 44 audio"
  have "\<forall>i\<in>set [0..<length audio]. \<exists>v. ?f i = Inr v"
    using limit_sample_succeeds [of _ audio 44 110] by simp
  from sequence_err_map [OF this]
  obtain limited where l: "sequence_err (map ?f [0..<length audio]) = Inr limited"
    "length limited = length audio"
    "\<forall>k<length audio. ?f ([0..<length audio] ! k) = Inr (limited ! k)"
    by auto
  have "limited ! i = audio ! i"
    if i: "i < length audio"
      and quiet: "\<forall>j\<in>{i..<min (i + 44) (length audio)}. \<bar>audio ! j\<bar> \<le> 10 powr (- (1 / 2) / 20)"
    for i
  proof -
    have "?f i = Inr (audio ! i)"
      using limit_sample_unchanged [of i audio 44 "10 powr (- (1 / 2) / 20)" 110] i quiet
      by simp
    moreover have "?f i = Inr (limited ! i)" using l(3) i by simp
    ultimately show ?thesis by simp
  qed
  with l(1,2) show ?thesis
    unfolding apply_limiting_default [OF assms] by blast
qed

theorem limiter_leaves_quiet_samples_witness:
  "\<exists>limited. apply_limiting (MasteringEngine (- 14) (- 1)) [2, 1 / 10] = Inr limited
      \<and> length limited = 2 \<and> limited ! 1 = 1 / 10"
proof -
  have p: "limiter_params (MasteringEngine (- 14) (- 1)) = init_limiter_params"
    and r: "sample_rate (MasteringEngine (- 14) (- 1)) = 22050"
    by (simp_all add: MasteringEngine_def)
  from limiter_leaves_quiet_samples [OF p r, of "[2, 1 / 10]"]
  obtain limited where l: "apply_limiting (MasteringEngine (- 14) (- 1)) [2, 1 / 10] = Inr limited"
    "length limited = length [2, 1 / 10 :: real]"
    "\<forall>i<length [2, 1 / 10 :: real].
           (\<forall>j\<in>{i..<min (i + 44) (length [2, 1 / 10 :: real])}.
               \<bar>[2, 1 / 10 :: real] ! j\<bar> \<le> 10 powr (- (1 / 2) / 20))
           \<longrightarrow> limited ! i = [2, 1 / 10] ! i"
    by blast
  have "\<forall>j\<in>{1..<min (1 + 44) (length [2, 1 / 10 :: real])}.
               \<bar>[2, 1 / 10 :: real] ! j\<bar> \<le> 10 powr (- (1 / 2) / 20)"
  proof
    fix j assume "j \<in> {1..<min (1 + 44) (length [2, 1 / 10 :: real])}"
    then have "j = 1" by simp
    then show "\<bar>[2, 1 / 10 :: real] ! j\<bar> \<le> 10 powr (- (1 / 2) / 20)"
      using limiter_threshold_bounds(3) by simp
  qed
  with l(3) have "limited ! 1 = [2, 1 / 10] ! 1" by simp
  then have "limited ! 1 = 1 / 10" by simp
  with l(1,2) show ?thesis by simp
qed

text \<open>
  At the first index the gain \<open>T / peak\<close> is applied as it is, and the first output sample
  never exceeds the threshold.
\<close>

lemma limit_sample_first_bounded:
  assumes ne: "audio \<noteq> []" and la: "0 < la" and thr: "0 < thr"
  shows "\<exists>v. limit_sample thr rs la audio 0 = Inr v \<and> \<bar>v\<bar> \<le> thr"
proof -
  let ?w = "take (nat la) (drop 0 audio)"
  define pk where "pk = Max (set (map abs ?w))"
  have i: "0 < length audio" using ne by simp
  have wne: "?w \<noteq> []" using ne la by simp
  have "hd audio \<in> set ?w" using ne la by (cases audio) (simp_all add: take_Cons')
  then have "\<bar>audio ! 0\<bar> \<in> set (map abs ?w)" using ne by (simp add: hd_conv_nth)
  then have le: "\<bar>audio ! 0\<bar> \<le> pk" unfolding pk_def by (intro Max_ge) simp_all
  show ?thesis
  proof (cases "pk > thr")
    case False
    then have "limit_sample thr rs la audio 0 = Inr (audio ! 0)"
      unfolding limit_sample_window [OF i la] Let_def pk_def by simp
    with le False show ?thesis by simp
  next
    case True
    then have pos: "0 < pk" using thr by simp
    have v: "limit_sample thr rs la audio 0 = Inr (audio ! 0 * (thr / pk))"
      using True unfolding limit_sample_window [OF i la] Let_def pk_def by simp
    have "\<bar>audio ! 0 * (thr / pk)\<bar> = \<bar>audio ! 0\<bar> / pk * thr"
      using pos thr by (simp add: abs_mult)
    also have "\<dots> \<le> 1 * thr"
      using le pos thr by (intro mult_right_mono) (simp_all add: divide_le_eq)
    finally show ?thesis using v by simp
  qed
qed

text \<open>
  Claim C1 fails on the code. For the buffer \<open>[0, 2]\<close> the second output sample is
  \<open>2 * (alpha * (T / 2) + (1 - alpha))\<close> with \<open>alpha = exp (-1/110)\<close>: line 344 blends
  the gain \<open>T / peak\<close> with unity at every index but the first, so the sample leaves the
  limiter more than 0.009 above the threshold \<open>T = 10^(-0.5/20)\<close>.
\<close>

theorem limiter_overshoot:
  "apply_limiting (MasteringEngine (- 14) (- 1)) [0, 2] =
     Inr [0, 2 * (exp (- 1 / 110) * (10 powr (- (1 / 2) / 20) / 2) + (1 - exp (- 1 / 110)) * 1)]
   \<and> (10::real) powr (- (1 / 2) / 20) + 9 / 1000
       < 2 * (exp (- 1 / 110) * (10 powr (- (1 / 2) / 20) / 2) + (1 - exp (- 1 / 110)) * 1)"
proof -
  let ?T = "(10::real) powr (- (1 / 2) / 20)"
  let ?a = "exp (- 1 / (110::real))"
  let ?E = "MasteringEngine (- 14) (- 1)"
  have p: "limiter_params ?E = init_limiter_params" and r: "sample_rate ?E = 22050"
    by (simp_all add: MasteringEngine_def)
  have T1: "?T < 1" and T0: "0 < ?T" using limiter_threshold_bounds by simp_all
  have m0: "Max (set (map abs (take (nat 44) (drop 0 [0, 2 :: real])))) = 2" by simp
  have m1: "Max (set (map abs (take (nat 44) (drop 1 [0, 2 :: real])))) = 2" by simp
  have s0: "limit_sample ?T 110 44 [0, 2] 0 = Inr 0"
    using limit_sample_window [of 0 "[0, 2]" 44 ?T 110] T1 unfolding m0 Let_def by simp
  have s1: "limit_sample ?T 110 44 [0, 2] 1 = Inr (2 * (?a * (?T / 2) + (1 - ?a) * 1))"
    using limit_sample_window [of 1 "[0, 2]" 44 ?T 110] T1 unfolding m1 Let_def by simp
  have idx: "[0..<length [0, 2 :: real]] = [0, 1]" by (simp add: upt_rec)
  have out: "apply_limiting ?E [0, 2] = Inr [0, 2 * (?a * (?T / 2) + (1 - ?a) * 1)]"
    unfolding apply_limiting_default [OF p r] idx using s0 s1 by simp
  have a: "1 / 111 \<le> 1 - ?a" using release_alpha_bounds(2) by simp
  have "1 / 111 * 1 < (1 - ?a) * (2 - ?T)"
    by (rule mult_le_less_imp_less) (use a T1 in simp_all)
  then have "9 / 1000 < (1 - ?a) * (2 - ?T)" by simp
  moreover have "2 * (?a * (?T / 2) + (1 - ?a) * 1) = ?T + (1 - ?a) * (2 - ?T)"
    by (simp add: algebra_simps)
  ultimately have "?T + 9 / 1000 < 2 * (?a * (?T / 2) + (1 - ?a) * 1)" by simp
  with out show ?thesis by simp
qed

section \<open>Properties of the filters\<close>

lemma lfilter_run_length:
  "length (lfilter_run bs as z xs) = length xs"
proof (induction xs arbitrary: z)
  case Nil
  then show ?case by simp
next
  case (Cons x xs)
  obtain b0 b1 b2 where bs: "bs = (b0, b1, b2)" by (cases bs) auto
  obtain a1 a2 where as: "as = (a1, a2)" by (cases as) auto
  obtain z0 z1 where z: "z = (z0, z1)" by (cases z) auto
  show ?case using Cons unfolding bs as z by (simp add: Let_def)
qed

lemma lfilter_length: "length (lfilter b a z xs) = length xs"
  by (cases b; cases a) (simp add: lfilter_def lfilter_run_length split: prod.splits)

lemma lfilter_run_scale:
  "lfilter_run (b0, b1, b2) (a1, a2) (z0 * g, z1 * g) (map (\<lambda>v. v * g) xs)
     = map (\<lambda>v. v * g) (lfilter_run (b0, b1, b2) (a1, a2) (z0, z1) xs)"
proof (induction xs arbitrary: z0 z1)
  case Nil
  then show ?case by simp
next
  case (Cons x xs)
  have e0: "b0 * (x * g) + z0 * g = (b0 * x + z0) * g"
    by (simp add: algebra_simps)
  have e1: "b1 * (x * g) + z1 * g - a1 * ((b0 * x + z0) * g)
              = (b1 * x + z1 - a1 * (b0 * x + z0)) * g"
    by (simp add: algebra_simps)
  have e2: "b2 * (x * g) - a2 * ((b0 * x + z0) * g) = (b2 * x - a2 * (b0 * x + z0)) * g"
    by (simp add: algebra_simps)
  show ?case
    by (simp only: list.map lfilter_run.simps Let_def e0 e1 e2 Cons.IH)
qed

lemma lfilter_scale:
  "lfilter b a (z0 * g, z1 * g) (map (\<lambda>v. v * g) xs) = map (\<lambda>v. v * g) (lfilter b a (z0, z1) xs)"
  by (cases b; cases a) (simp add: lfilter_def lfilter_run_scale split: prod.splits)

lemma odd_ext_length:
  "n < length x \<Longrightarrow> length (odd_ext x n) = length x + 2 * n"
  by (simp add: odd_ext_def)

lemma reflect_scale:
  "map (\<lambda>v. 2 * (c * g) - v) (map (\<lambda>v. v * g) ys)
     = map (\<lambda>v. v * g) (map (\<lambda>v. 2 * c - v) (ys :: real list))"
  by (simp add: algebra_simps)

lemma odd_ext_scale:
  "odd_ext (map (\<lambda>v. v * g) x) n = map (\<lambda>v. v * g) (odd_ext x n)"
proof (cases "x = []")
  case True
  then show ?thesis by (simp add: odd_ext_def)
next
  case False
  then have h: "hd (map (\<lambda>v. v * g) x) = hd x * g" and l: "last (map (\<lambda>v. v * g) x) = last x * g"
    by (simp_all add: hd_map last_map)
  have left: "rev (take n (tl (map (\<lambda>v. v * g) x))) = map (\<lambda>v. v * g) (rev (take n (tl x)))"
    by (simp only: map_tl [symmetric] take_map rev_map)
  have right: "take n (tl (rev (map (\<lambda>v. v * g) x))) = map (\<lambda>v. v * g) (take n (tl (rev x)))"
    by (simp only: map_tl [symmetric] take_map rev_map)
  show ?thesis
    unfolding odd_ext_def h l left right reflect_scale
    by (simp only: map_append)
qed

lemma filtfilt_unfold:
  assumes "padlen < length x" "lfilter_zi b a = Inr (z0, z1)"
  shows "filtfilt b a x =
     Inr (take (length x) (drop padlen
       (rev (lfilter b a (z0 * last (lfilter b a (z0 * hd (odd_ext x padlen), z1 * hd (odd_ext x padlen)) (odd_ext x padlen)),
                          z1 * last (lfilter b a (z0 * hd (odd_ext x padlen), z1 * hd (odd_ext x padlen)) (odd_ext x padlen)))
              (rev (lfilter b a (z0 * hd (odd_ext x padlen), z1 * hd (odd_ext x padlen)) (odd_ext x padlen)))))))"
proof -
  have len: "length (odd_ext x padlen) - 2 * padlen = length x"
    using assms(1) by (simp add: odd_ext_length)
  show ?thesis
    using assms
    by (simp add: filtfilt_def bind_err_def Let_def lfilter_length len)
qed

lemma filtfilt_length:
  assumes "filtfilt b a x = Inr y"
  shows "length y = length x"
proof -
  from assms have n: "padlen < length x"
    by (simp add: filtfilt_def split: if_splits)
  from assms n obtain zi where zi: "lfilter_zi b a = Inr zi"
    by (cases "lfilter_zi b a") (simp_all add: filtfilt_def bind_err_def)
  obtain z0 z1 where z: "zi = (z0, z1)" by (cases zi) auto
  have "length (odd_ext x padlen) = length x + 2 * padlen"
    using n by (simp add: odd_ext_length)
  then show ?thesis
    using assms unfolding filtfilt_unfold [OF n zi [unfolded z]]
    by (auto simp add: lfilter_length)
qed

lemma filtfilt_succeeds:
  assumes "padlen < length x" "lfilter_zi b a = Inr zi"
  shows "\<exists>y. filtfilt b a x = Inr y \<and> length y = length x"
proof -
  obtain z0 z1 where z: "zi = (z0, z1)" by (cases zi) auto
  from filtfilt_unfold [OF assms(1) assms(2) [unfolded z]]
  obtain y where y: "filtfilt b a x = Inr y" by blast
  with filtfilt_length [OF y] show ?thesis by blast
qed

lemma filtfilt_short: "length x \<le> padlen \<Longrightarrow> filtfilt b a x = Inl PadLength"
  by (simp add: filtfilt_def)

lemma lfilter_zi_succeeds:
  "1 + a1 + a2 \<noteq> 0 \<Longrightarrow> \<exists>zi. lfilter_zi (b0, b1, b2) (1, a1, a2) = Inr zi"
  by (simp add: lfilter_zi_def Let_def)

lemma filtfilt_scale:
  assumes "filtfilt b a x = Inr y"
  shows "filtfilt b a (map (\<lambda>v. v * g) x) = Inr (map (\<lambda>v. v * g) y)"
proof -
  let ?s = "\<lambda>v. v * g"
  from assms have n: "padlen < length x"
    by (simp add: filtfilt_def split: if_splits)
  then have n': "padlen < length (map ?s x)" by simp
  from assms n obtain zi where zi: "lfilter_zi b a = Inr zi"
    by (cases "lfilter_zi b a") (simp_all add: filtfilt_def bind_err_def)
  obtain z0 z1 where z: "zi = (z0, z1)" by (cases zi) auto
  note zi' = zi [unfolded z]
  let ?ext = "odd_ext x padlen"
  let ?f = "lfilter b a (z0 * hd ?ext, z1 * hd ?ext) ?ext"
  let ?bk = "lfilter b a (z0 * last ?f, z1 * last ?f) (rev ?f)"
  have ext_ne: "?ext \<noteq> []" using n by (auto simp add: odd_ext_def)
  then have f_ne: "?f \<noteq> []" using lfilter_length [of b a _ ?ext] by (metis length_0_conv)
  have e1: "odd_ext (map ?s x) padlen = map ?s ?ext" by (rule odd_ext_scale)
  have h: "hd (map ?s ?ext) = hd ?ext * g" using ext_ne by (simp add: hd_map)
  have f: "lfilter b a (z0 * (hd ?ext * g), z1 * (hd ?ext * g)) (map ?s ?ext) = map ?s ?f"
    using lfilter_scale [of b a "z0 * hd ?ext" g "z1 * hd ?ext" ?ext]
    by (simp only: mult.assoc)
  have l: "last (map ?s ?f) = last ?f * g" using f_ne by (simp add: last_map)
  have bk: "lfilter b a (z0 * (last ?f * g), z1 * (last ?f * g)) (rev (map ?s ?f)) = map ?s ?bk"
    using lfilter_scale [of b a "z0 * last ?f" g "z1 * last ?f" "rev ?f"]
    by (simp only: mult.assoc rev_map)
  have y: "y = take (length x) (drop padlen (rev ?bk))"
    using assms unfolding filtfilt_unfold [OF n zi'] by simp
  show ?thesis
    unfolding filtfilt_unfold [OF n' zi'] e1 h f l bk y
    by (simp only: rev_map drop_map take_map length_map)
qed





lemma lfilter_zi_pre:
  "\<exists>z0 z1. lfilter_zi (153512485958697 / 10 ^ 14, - (269169618940638 / 10 ^ 14),
                         119839281085285 / 10 ^ 14)
                        (1, - (169065929318241 / 10 ^ 14), 73248077421585 / 10 ^ 14) = Inr (z0, z1)"
proof -
  have "1 + - (169065929318241 / 10 ^ 14) + 73248077421585 / 10 ^ 14 \<noteq> (0::real)"
    by simp
  from lfilter_zi_succeeds [OF this] show ?thesis
    by (metis prod.collapse)
qed

lemma lfilter_zi_hp:
  "lfilter_zi (1, - 2, 1) (1, - (199004745483398 / 10 ^ 14), 99007225036621 / 10 ^ 14)
     = Inr (- 1, 1)"
  by (simp add: lfilter_zi_def Let_def)


section \<open>Properties of the loudness normaliser\<close>

lemma mean_square_scale:
  "mean_square (map (\<lambda>v. v * g) k) = g\<^sup>2 * mean_square k"
proof -
  have "sum_list (map (\<lambda>x. x\<^sup>2) (map (\<lambda>v. v * g) k)) = g\<^sup>2 * sum_list (map (\<lambda>x. x\<^sup>2) k)"
    by (induction k) (simp_all add: power_mult_distrib algebra_simps)
  then show ?thesis by (simp add: mean_square_def)
qed

lemma mean_square_nonneg: "0 \<le> mean_square k"
proof -
  have "0 \<le> sum_list (map (\<lambda>x. x\<^sup>2) k)"
    by (induction k) simp_all
  then show ?thesis by (simp add: mean_square_def)
qed

lemma k_weighting_succeeds:
  assumes "padlen < length audio"
  shows "\<exists>k. k_weighting audio sr = Inr k \<and> length k = length audio"
proof -
  from lfilter_zi_pre obtain z0 z1 where
    zp: "lfilter_zi (153512485958697 / 10 ^ 14, - (269169618940638 / 10 ^ 14),
                         119839281085285 / 10 ^ 14)
                        (1, - (169065929318241 / 10 ^ 14), 73248077421585 / 10 ^ 14) = Inr (z0, z1)"
    by blast
  from filtfilt_succeeds [OF assms zp]
  obtain pre where pre: "filtfilt (153512485958697 / 10 ^ 14, - (269169618940638 / 10 ^ 14),
                         119839281085285 / 10 ^ 14)
                        (1, - (169065929318241 / 10 ^ 14), 73248077421585 / 10 ^ 14) audio = Inr pre"
    "length pre = length audio" by blast
  from assms pre(2) have "padlen < length pre" by simp
  from filtfilt_succeeds [OF this lfilter_zi_hp]
  obtain k where k: "filtfilt (1, - 2, 1)
      (1, - (199004745483398 / 10 ^ 14), 99007225036621 / 10 ^ 14) pre = Inr k"
    "length k = length pre" by blast
  have "k_weighting audio sr = Inr k"
    unfolding k_weighting_def pre(1) bind_err_def by (simp only: sum.case k(1))
  with k(2) pre(2) show ?thesis by simp
qed

lemma k_weighting_scale:
  assumes "k_weighting audio sr = Inr k"
  shows "k_weighting (map (\<lambda>v. v * g) audio) sr = Inr (map (\<lambda>v. v * g) k)"
proof -
  let ?bp = "(153512485958697 / 10 ^ 14, - (269169618940638 / 10 ^ 14),
                         119839281085285 / 10 ^ 14) :: real \<times> real \<times> real"
  let ?ap = "(1, - (169065929318241 / 10 ^ 14), 73248077421585 / 10 ^ 14) :: real \<times> real \<times> real"
  let ?bh = "(1, - 2, 1) :: real \<times> real \<times> real"
  let ?ah = "(1, - (199004745483398 / 10 ^ 14), 99007225036621 / 10 ^ 14) :: real \<times> real \<times> real"
  from assms obtain pre where pre: "filtfilt ?bp ?ap audio = Inr pre"
    by (cases "filtfilt ?bp ?ap audio") (simp_all add: k_weighting_def bind_err_def)
  with assms have k: "filtfilt ?bh ?ah pre = Inr k"
    by (simp add: k_weighting_def bind_err_def)
  show ?thesis
    unfolding k_weighting_def filtfilt_scale [OF pre] bind_err_def
    by (simp only: sum.case filtfilt_scale [OF k])
qed

lemma ln10_ge_1: "1 \<le> ln (10::real)"
proof -
  have "exp (1::real) \<le> 10" using exp_le by (rule order_trans) simp
  then have "ln (exp (1::real)) \<le> ln 10" by (simp del: ln_exp)
  then show ?thesis by simp
qed

lemma log10_one_plus_le:
  assumes "0 \<le> d"
  shows "log 10 (1 + d) \<le> (d::real)"
proof -
  have "ln (1 + d) \<le> d" using assms by (rule ln_add_one_self_le_self)
  moreover have "0 \<le> ln (1 + d)" using assms by simp
  ultimately have "ln (1 + d) / ln 10 \<le> d / 1"
    using ln10_ge_1 by (intro frac_le) simp_all
  then show ?thesis by (simp add: log_def)
qed

lemma log10_near_one:
  fixes r d :: real
  assumes "0 < r" "0 \<le> d" "r \<le> 1 + d" "1 \<le> (1 + d) * r"
  shows "\<bar>log 10 r\<bar> \<le> d"
proof -
  have d1: "0 < 1 + d" using assms(2) by simp
  have b: "log 10 (1 + d) \<le> d" using assms(2) by (rule log10_one_plus_le)
  have "log 10 r \<le> log 10 (1 + d)" using assms(1,3) by (simp add: log_le_cancel_iff)
  with b have l1: "log 10 r \<le> d" by simp
  have "log 10 1 \<le> log 10 ((1 + d) * r)"
    using assms(1,4) d1 by (subst log_le_cancel_iff) simp_all
  also have "log 10 ((1 + d) * r) = log 10 (1 + d) + log 10 r"
    using d1 assms(1) by (simp add: log_mult)
  finally have "0 \<le> log 10 (1 + d) + log 10 r" by simp
  with b have l2: "- d \<le> log 10 r" by linarith
  from l1 l2 show ?thesis by (simp add: abs_le_iff)
qed

lemma guard_deviation_bound:
  fixes m G :: real
  assumes m: "1 / 10 ^ 7 \<le> m" and G: "0 < G" and Gm: "1 / 10 ^ 7 \<le> G * m"
  shows "\<bar>10 * log 10 ((G * m + 1 / 10 ^ 12) / (G * (m + 1 / 10 ^ 12)))\<bar> \<le> 1 / 10 ^ 4"
proof -
  define e :: real where "e = 1 / 10 ^ 12"
  define d :: real where "d = 1 / 10 ^ 5"
  define r where "r = (G * m + e) / (G * (m + e))"
  have epos: "0 < e" and dpos: "0 \<le> d" by (simp_all add: e_def d_def)
  have mpos: "0 < m" using m by (rule less_le_trans [rotated]) simp
  have den: "0 < G * (m + e)" using G mpos epos by simp
  have num: "0 < G * m + e" using G mpos epos by (simp add: add_pos_pos)
  have rpos: "0 < r" unfolding r_def using den num by simp
  have em: "e \<le> d * m" using m by (simp add: e_def d_def)
  have eGm: "e \<le> d * (G * m)" using Gm by (simp add: e_def d_def)
  have up: "r \<le> 1 + d"
  proof -
    have "0 \<le> d * (G * e)" using dpos G epos by simp
    moreover have "0 \<le> G * e" using G epos by simp
    ultimately have "G * m + e \<le> (1 + d) * (G * (m + e))"
      using eGm by (simp add: algebra_simps)
    then show ?thesis unfolding r_def using den by (simp add: pos_divide_le_eq)
  qed
  have lo: "1 \<le> (1 + d) * r"
  proof -
    have "G * e \<le> G * (d * m)" using em G by (simp add: mult_left_mono)
    moreover have "0 \<le> e + d * e" using epos dpos by simp
    ultimately have "G * (m + e) \<le> (1 + d) * (G * m + e)"
      by (simp add: algebra_simps)
    then have "1 \<le> (1 + d) * (G * m + e) / (G * (m + e))"
      using den by (simp add: pos_le_divide_eq)
    then show ?thesis unfolding r_def by simp
  qed
  have "\<bar>log 10 r\<bar> \<le> d" using rpos dpos up lo by (rule log10_near_one)
  then have "\<bar>10 * log 10 r\<bar> \<le> 10 * d" by (simp add: abs_mult)
  then show ?thesis unfolding r_def e_def d_def by simp
qed




lemma calculate_lufs_unfold:
  "k_weighting audio sr = Inr k \<Longrightarrow>
     calculate_lufs audio sr = Inr (- (691 / 1000) + 10 * log 10 (mean_square k + 1 / 10 ^ 12))"
  unfolding calculate_lufs_def bind_err_def by (simp only: sum.case)

lemma normalize_loudness_unfold:
  "calculate_lufs audio sr = Inr lufs_in \<Longrightarrow>
     normalize_loudness e audio sr
       = Inr (map (\<lambda>x. x * 10 powr ((target_lufs e - lufs_in) / 20)) audio)"
  unfolding normalize_loudness_def bind_err_def Let_def by (simp only: sum.case)

lemma guard_identity:
  fixes m g t :: real
  assumes m: "0 \<le> m" and g: "g = 10 powr ((t - (- (691 / 1000) + 10 * log 10 (m + 1 / 10 ^ 12))) / 20)"
  shows "- (691 / 1000) + 10 * log 10 (g\<^sup>2 * m + 1 / 10 ^ 12)
           = t + 10 * log 10 ((g\<^sup>2 * m + 1 / 10 ^ 12) / (g\<^sup>2 * (m + 1 / 10 ^ 12)))"
proof -
  define e :: real where "e = 1 / 10 ^ 12"
  define L where "L = - (691 / 1000) + 10 * log 10 (m + e)"
  have epos: "0 < e" by (simp add: e_def)
  have gpos: "0 < g" unfolding g by simp
  have g2: "0 < g\<^sup>2" using gpos by simp
  have me: "0 < m + e" using m epos by simp
  have num: "0 < g\<^sup>2 * m + e" using g2 m epos by (simp add: add_nonneg_pos)
  have lg: "log 10 g = (t - L) / 20"
    unfolding g L_def e_def by (simp only: log_powr_cancel)
  have lg2: "log 10 (g\<^sup>2) = 2 * log 10 g"
    using gpos by (simp add: log_nat_power)
  have "log 10 ((g\<^sup>2 * m + e) / (g\<^sup>2 * (m + e)))
          = log 10 (g\<^sup>2 * m + e) - log 10 (g\<^sup>2 * (m + e))"
    using num g2 me by (simp add: log_divide)
  also have "log 10 (g\<^sup>2 * (m + e)) = log 10 (g\<^sup>2) + log 10 (m + e)"
    using g2 me by (simp add: log_mult)
  finally have "t + 10 * log 10 ((g\<^sup>2 * m + e) / (g\<^sup>2 * (m + e)))
      = t + 10 * log 10 (g\<^sup>2 * m + e) - 20 * log 10 g - 10 * log 10 (m + e)"
    unfolding lg2 by simp
  also have "\<dots> = - (691 / 1000) + 10 * log 10 (g\<^sup>2 * m + e)"
    unfolding lg L_def by (simp add: field_simps)
  finally show ?thesis unfolding e_def by simp
qed

lemma normalize_then_measure:
  assumes "9 < length audio"
  shows "\<exists>k lufs_in out lufs_out.
      k_weighting audio sr = Inr k
    \<and> calculate_lufs audio sr = Inr lufs_in
    \<and> normalize_loudness e audio sr = Inr out
    \<and> calculate_lufs out sr = Inr lufs_out
    \<and> lufs_out = target_lufs e + 10 * log 10
          (((10 powr ((target_lufs e - lufs_in) / 20))\<^sup>2 * mean_square k + 1 / 10 ^ 12)
           / ((10 powr ((target_lufs e - lufs_in) / 20))\<^sup>2 * (mean_square k + 1 / 10 ^ 12)))"
proof -
  from assms have "padlen < length audio" by (simp add: padlen_def)
  from k_weighting_succeeds [OF this]
  obtain k where k: "k_weighting audio sr = Inr k" by blast
  define lufs_in where "lufs_in = - (691 / 1000) + 10 * log 10 (mean_square k + 1 / 10 ^ 12)"
  define g where "g = 10 powr ((target_lufs e - lufs_in) / 20)"
  define out where "out = map (\<lambda>x. x * g) audio"
  define lufs_out where "lufs_out = - (691 / 1000) + 10 * log 10 (g\<^sup>2 * mean_square k + 1 / 10 ^ 12)"
  have li: "calculate_lufs audio sr = Inr lufs_in"
    unfolding lufs_in_def using k by (rule calculate_lufs_unfold)
  have no: "normalize_loudness e audio sr = Inr out"
    unfolding out_def g_def using li by (rule normalize_loudness_unfold)
  have ko: "k_weighting out sr = Inr (map (\<lambda>v. v * g) k)"
    unfolding out_def using k by (rule k_weighting_scale)
  have lo: "calculate_lufs out sr = Inr lufs_out"
    unfolding lufs_out_def mean_square_scale [symmetric] using ko by (rule calculate_lufs_unfold)
  have "lufs_out = target_lufs e + 10 * log 10
          ((g\<^sup>2 * mean_square k + 1 / 10 ^ 12) / (g\<^sup>2 * (mean_square k + 1 / 10 ^ 12)))"
    unfolding lufs_out_def
    by (rule guard_identity [OF mean_square_nonneg]) (simp add: g_def lufs_in_def)
  with k li no lo show ?thesis unfolding g_def by blast
qed




text \<open>
  When the K-weighted mean squares of the input and of the output are both at least
  \<open>10^-7\<close>, the deviation of the identity above is within \<open>10^-4\<close>.
\<close>

lemma normalized_loudness_within_tolerance:
  assumes k: "k_weighting audio sr = Inr k"
    and no: "normalize_loudness e audio sr = Inr out"
    and ko: "k_weighting out sr = Inr k'"
    and m: "1 / 10 ^ 7 \<le> mean_square k"
    and m': "1 / 10 ^ 7 \<le> mean_square k'"
  shows "\<exists>lufs_out. calculate_lufs out sr = Inr lufs_out
         \<and> \<bar>lufs_out - target_lufs e\<bar> \<le> 1 / 10 ^ 4"
proof -
  from k have n: "9 < length audio"
    by (auto simp add: k_weighting_def filtfilt_def bind_err_def padlen_def split: if_splits)
  from normalize_then_measure [OF n, of sr e] k no
  obtain lufs_in lufs_out where
    li: "calculate_lufs audio sr = Inr lufs_in"
    and lo: "calculate_lufs out sr = Inr lufs_out"
    and id: "lufs_out = target_lufs e + 10 * log 10
          (((10 powr ((target_lufs e - lufs_in) / 20))\<^sup>2 * mean_square k + 1 / 10 ^ 12)
           / ((10 powr ((target_lufs e - lufs_in) / 20))\<^sup>2 * (mean_square k + 1 / 10 ^ 12)))"
    by auto
  define G where "G = (10 powr ((target_lufs e - lufs_in) / 20))\<^sup>2"
  have G: "0 < G" unfolding G_def by simp
  have "out = map (\<lambda>x. x * 10 powr ((target_lufs e - lufs_in) / 20)) audio"
    using no normalize_loudness_unfold [OF li, of e] by simp
  then have "k_weighting out sr
               = Inr (map (\<lambda>v. v * 10 powr ((target_lufs e - lufs_in) / 20)) k)"
    using k_weighting_scale [OF k] by simp
  with ko have "k' = map (\<lambda>v. v * 10 powr ((target_lufs e - lufs_in) / 20)) k" by simp
  then have "mean_square k' = G * mean_square k"
    unfolding G_def by (simp only: mean_square_scale)
  with m' have Gm: "1 / 10 ^ 7 \<le> G * mean_square k" by simp
  have "\<bar>lufs_out - target_lufs e\<bar>
          = \<bar>10 * log 10 ((G * mean_square k + 1 / 10 ^ 12) / (G * (mean_square k + 1 / 10 ^ 12)))\<bar>"
    unfolding id G_def by simp
  also have "\<dots> \<le> 1 / 10 ^ 4" using m G Gm by (rule guard_deviation_bound)
  finally show ?thesis using lo by blast
qed

section \<open>Properties of validation\<close>

lemma nan_to_num_nth:
  "i < length audio \<Longrightarrow>
     nan_to_num audio ! i = (case audio ! i of Fin x \<Rightarrow> x | NaN \<Rightarrow> 0 | PosInf \<Rightarrow> 0 | NegInf \<Rightarrow> 0)"
  by (cases "audio ! i") (simp_all add: nan_to_num_def)

lemma abs_max_nonempty:
  "xs \<noteq> [] \<Longrightarrow> abs_max xs = Inr (Max (set (map abs xs)))"
  by (simp add: abs_max_def)

lemma abs_max_pos_scale:
  assumes "xs \<noteq> []" "0 \<le> (c::real)"
  shows "Max (set (map abs (map (\<lambda>x. x * c) xs))) = Max (set (map abs xs)) * c"
proof -
  have m: "mono (\<lambda>a::real. a * c)"
    using assms(2) by (simp add: mono_def mult_right_mono)
  have "set (map abs (map (\<lambda>x. x * c) xs)) = (\<lambda>a. a * c) ` set (map abs xs)"
    using assms(2) by (auto simp add: abs_mult image_iff)
  moreover have "Max ((\<lambda>a. a * c) ` set (map abs xs)) = Max (set (map abs xs)) * c"
    using mono_Max_commute [OF m, of "set (map abs xs)"] assms(1) by simp
  ultimately show ?thesis by simp
qed

lemma validate_input_cases:
  assumes "audio \<noteq> []"
  shows "validate_input audio =
     (let m = Max (set (map abs (nan_to_num audio))) in
      if m < 1 / 10 ^ 10 then Inl SilentInput
      else if 1 < m then Inr (map (\<lambda>x. x / m * (95 / 100)) (nan_to_num audio))
      else Inr (nan_to_num audio))"
proof -
  have "nan_to_num audio \<noteq> []" using assms by (simp add: nan_to_num_def)
  then show ?thesis
    by (simp add: validate_input_def Let_def abs_max_def bind_err_def)
qed

lemma rescaled_peak:
  fixes xs :: "real list"
  assumes "xs \<noteq> []" and "1 < Max (set (map abs xs))"
  shows "Max (set (map abs (map (\<lambda>x. x / Max (set (map abs xs)) * (95 / 100)) xs))) = 95 / 100"
proof -
  define m where "m = Max (set (map abs xs))"
  define c where "c = 95 / 100 / m"
  have mpos: "0 < m" using assms(2) unfolding m_def by simp
  have cpos: "0 \<le> c" using mpos by (simp add: c_def)
  have f: "(\<lambda>x. x / m * (95 / 100)) = (\<lambda>x. x * c)"
    by (rule ext) (simp add: c_def mult.commute)
  have "Max (set (map abs (map (\<lambda>x. x * c) xs))) = Max (set (map abs xs)) * c"
    using assms(1) cpos by (rule abs_max_pos_scale)
  also have "\<dots> = m * c" by (simp only: m_def)
  also have "\<dots> = 95 / 100" using mpos by (simp add: c_def)
  finally show ?thesis unfolding m_def [symmetric] f .
qed

lemma master_track_rejected:
  "validate_input audio = Inl err \<Longrightarrow> audio \<noteq> [] \<Longrightarrow>
     master_track cen e audio sr = (Inl err, e)"
  by (simp add: master_track_def)

lemma master_track_empty: "master_track cen e [] sr = (Inl ZeroSizeArray, e)"
  by (simp add: master_track_def)

text \<open>
  Claim C5. \<^verbatim>\<open>np.nan_to_num\<close> keeps the length and replaces NaN and both infinities by
  zero. With \<open>m\<close> the peak absolute value of the sanitized buffer: if \<open>m < 10^-10\<close>,
  validation raises the silence error and \<^verbatim>\<open>master_track\<close> ends with that error and the
  engine it was given, so no band gain is written and nothing is returned; if \<open>m > 1\<close>, the
  buffer is divided by \<open>m\<close> and multiplied by 0.95, and its new peak is 0.95; otherwise the
  sanitized buffer is returned as it is. An empty buffer has no peak: \<^verbatim>\<open>master_track\<close> ends
  with numpy's error for the maximum of an empty array, and the engine is unchanged as well.
\<close>

theorem validation_behaviour:
  fixes audio :: "sample list"
  defines "m \<equiv> Max (set (map abs (nan_to_num audio)))"
  shows "length (nan_to_num audio) = length audio
    \<and> (\<forall>i<length audio. nan_to_num audio ! i
           = (case audio ! i of Fin x \<Rightarrow> x | NaN \<Rightarrow> 0 | PosInf \<Rightarrow> 0 | NegInf \<Rightarrow> 0))
    \<and> (audio = [] \<longrightarrow> master_track cen e audio sr = (Inl ZeroSizeArray, e))
    \<and> (audio \<noteq> [] \<and> m < 1 / 10 ^ 10 \<longrightarrow>
          validate_input audio = Inl SilentInput
          \<and> master_track cen e audio sr = (Inl SilentInput, e))
    \<and> (audio \<noteq> [] \<and> 1 < m \<longrightarrow>
          validate_input audio = Inr (map (\<lambda>x. x / m * (95 / 100)) (nan_to_num audio))
          \<and> abs_max (map (\<lambda>x. x / m * (95 / 100)) (nan_to_num audio)) = Inr (95 / 100))
    \<and> (audio \<noteq> [] \<and> 1 / 10 ^ 10 \<le> m \<and> m \<le> 1 \<longrightarrow>
          validate_input audio = Inr (nan_to_num audio))"
proof -
  have 1: "length (nan_to_num audio) = length audio" by (simp add: nan_to_num_def)
  have 2: "\<forall>i<length audio. nan_to_num audio ! i
           = (case audio ! i of Fin x \<Rightarrow> x | NaN \<Rightarrow> 0 | PosInf \<Rightarrow> 0 | NegInf \<Rightarrow> 0)"
    using nan_to_num_nth by blast
  have 3: "audio = [] \<longrightarrow> master_track cen e audio sr = (Inl ZeroSizeArray, e)"
    using master_track_empty by blast
  have 4: "validate_input audio = Inl SilentInput
          \<and> master_track cen e audio sr = (Inl SilentInput, e)"
    if "audio \<noteq> []" "m < 1 / 10 ^ 10"
  proof -
    have "validate_input audio = Inl SilentInput"
      using that unfolding validate_input_cases [OF that(1)] m_def by (simp add: Let_def)
    then show ?thesis using master_track_rejected that(1) by blast
  qed
  have 5: "validate_input audio = Inr (map (\<lambda>x. x / m * (95 / 100)) (nan_to_num audio))
          \<and> abs_max (map (\<lambda>x. x / m * (95 / 100)) (nan_to_num audio)) = Inr (95 / 100)"
    if "audio \<noteq> []" "1 < m"
  proof -
    have ne: "nan_to_num audio \<noteq> []" using that(1) by (simp add: nan_to_num_def)
    have "validate_input audio = Inr (map (\<lambda>x. x / m * (95 / 100)) (nan_to_num audio))"
      using that unfolding validate_input_cases [OF that(1)] m_def by (simp add: Let_def)
    moreover have "abs_max (map (\<lambda>x. x / m * (95 / 100)) (nan_to_num audio)) = Inr (95 / 100)"
    proof -
      have "map (\<lambda>x. x / m * (95 / 100)) (nan_to_num audio) \<noteq> []" using ne by simp
      then have "abs_max (map (\<lambda>x. x / m * (95 / 100)) (nan_to_num audio))
          = Inr (Max (set (map abs (map (\<lambda>x. x / m * (95 / 100)) (nan_to_num audio)))))"
        by (rule abs_max_nonempty)
      also have "Max (set (map abs (map (\<lambda>x. x / m * (95 / 100)) (nan_to_num audio)))) = 95 / 100"
        unfolding m_def using ne that(2) [unfolded m_def] by (rule rescaled_peak)
      finally show ?thesis .
    qed
    ultimately show ?thesis by blast
  qed
  have 6: "validate_input audio = Inr (nan_to_num audio)"
    if "audio \<noteq> []" "1 / 10 ^ 10 \<le> m" "m \<le> 1"
    using that unfolding validate_input_cases [OF that(1)] m_def by (simp add: Let_def)
  from 1 2 3 4 5 6 show ?thesis by blast
qed

theorem validation_behaviour_witness:
  "validate_input [Fin 0, NaN] = Inl SilentInput
   \<and> master_track (\<lambda>a s. Inr 2000) (MasteringEngine (- 14) (- 1)) [Fin 0, NaN] 22050
       = (Inl SilentInput, MasteringEngine (- 14) (- 1))
   \<and> validate_input [Fin 2, Fin (- 1), PosInf] = Inr [95 / 100, - (95 / 200), 0]
   \<and> abs_max [95 / 100, - (95 / 200), 0] = Inr (95 / 100)
   \<and> validate_input [Fin (1 / 2), NegInf] = Inr [1 / 2, 0]
   \<and> master_track (\<lambda>a s. Inr 2000) (MasteringEngine (- 14) (- 1)) [] 22050
       = (Inl ZeroSizeArray, MasteringEngine (- 14) (- 1))"
proof -
  let ?E = "MasteringEngine (- 14) (- 1)"
  let ?c = "\<lambda>(a :: real list) (s :: int). Inr 2000 :: error + real"
  have m1: "Max (set (map abs (nan_to_num [Fin 0, NaN]))) = 0"
    by (simp add: nan_to_num_def)
  have m2: "Max (set (map abs (nan_to_num [Fin 2, Fin (- 1), PosInf]))) = 2"
    by (simp add: nan_to_num_def)
  have m3: "Max (set (map abs (nan_to_num [Fin (1 / 2), NegInf]))) = 1 / 2"
    by (simp add: nan_to_num_def)
  note s = validation_behaviour [where audio = "[Fin 0, NaN]" and cen = ?c and e = ?E and sr = 22050,
             unfolded m1]
  note l = validation_behaviour [where audio = "[Fin 2, Fin (- 1), PosInf]" and cen = ?c and e = ?E
             and sr = 22050, unfolded m2]
  note n = validation_behaviour [where audio = "[Fin (1 / 2), NegInf]" and cen = ?c and e = ?E
             and sr = 22050, unfolded m3]
  note z = validation_behaviour [where audio = "[]" and cen = ?c and e = ?E and sr = 22050]
  have a: "validate_input [Fin 0, NaN] = Inl SilentInput
      \<and> master_track ?c ?E [Fin 0, NaN] 22050 = (Inl SilentInput, ?E)"
    using s by simp
  have b: "validate_input [Fin 2, Fin (- 1), PosInf] = Inr [95 / 100, - (95 / 200), 0]
      \<and> abs_max [95 / 100, - (95 / 200), 0] = Inr (95 / 100)"
    using l by (simp add: nan_to_num_def)
  have c: "validate_input [Fin (1 / 2), NegInf] = Inr [1 / 2, 0]"
    using n by (simp add: nan_to_num_def)
  have d: "master_track ?c ?E [] 22050 = (Inl ZeroSizeArray, ?E)"
    using z by simp
  from a b c d show ?thesis by (intro conjI) simp_all
qed

section \<open>Properties of the pipeline\<close>

lemma filtfilt_normalised_succeeds:
  assumes "padlen < length x" and "a0 \<noteq> 0" and "a0 + a1 + a2 \<noteq> 0"
  shows "\<exists>y. filtfilt (b0 / a0, b1 / a0, b2 / a0) (1, a1 / a0, a2 / a0) x = Inr y
             \<and> length y = length x"
proof -
  have "1 + a1 / a0 + a2 / a0 = (a0 + a1 + a2) / a0"
    using assms(2) by (simp add: field_simps)
  with assms(2,3) have "1 + a1 / a0 + a2 / a0 \<noteq> 0" by simp
  from lfilter_zi_succeeds [OF this]
  obtain zi where "lfilter_zi (b0 / a0, b1 / a0, b2 / a0) (1, a1 / a0, a2 / a0) = Inr zi"
    by blast
  with assms(1) show ?thesis by (rule filtfilt_succeeds)
qed

lemma digital_frequency:
  fixes f :: real and sr :: int
  assumes "0 < f" and "2 * f < real_of_int sr"
  shows "sr \<noteq> 0" and "0 < sin (2 * pi * f / real_of_int sr)"
    and "cos (2 * pi * f / real_of_int sr) < 1" and "- 1 < cos (2 * pi * f / real_of_int sr)"
proof -
  let ?w = "2 * pi * f / real_of_int sr"
  have srpos: "0 < real_of_int sr" using assms by linarith
  then show "sr \<noteq> 0" by auto
  have w0: "0 < ?w" using assms(1) srpos by simp
  have "2 * f / real_of_int sr < 1" using assms(2) srpos by (simp add: divide_less_eq)
  then have "pi * (2 * f / real_of_int sr) < pi * 1"
    by (intro mult_strict_left_mono) simp_all
  then have w1: "?w < pi" by (simp add: mult.assoc mult.left_commute)
  show "0 < sin ?w" using w0 w1 by (rule sin_gt_zero)
  have "cos ?w < cos 0" using w0 w1 by (intro cos_monotone_0_pi) simp_all
  then show "cos ?w < 1" by simp
  have "cos pi < cos ?w" using w0 w1 by (intro cos_monotone_0_pi) simp_all
  then show "- 1 < cos ?w" by simp
qed

lemma peaking_filter_succeeds:
  assumes "padlen < length audio" and "0 < freq params"
    and "2 * freq params < real_of_int sr" and "0 < q params"
  shows "\<exists>y. peaking_filter audio sr params = Inr y \<and> length y = length audio"
proof -
  note d = digital_frequency [OF assms(2,3)]
  define w0 where "w0 = 2 * pi * freq params / real_of_int sr"
  define A :: real where "A = 10 powr (gain params / 40)"
  define alpha where "alpha = sin w0 / (2 * q params)"
  have A: "0 < A" by (simp add: A_def)
  have al: "0 < alpha" using d(2) assms(4) by (simp add: alpha_def w0_def)
  have a0: "1 + alpha / A \<noteq> 0" using A al by (simp add: add_pos_pos less_imp_neq [symmetric])
  have "1 + alpha / A + - 2 * cos w0 + (1 - alpha / A) = 2 * (1 - cos w0)" by simp
  moreover have "0 < 1 - cos w0" using d(3) by (simp add: w0_def)
  ultimately have s: "1 + alpha / A + - 2 * cos w0 + (1 - alpha / A) \<noteq> 0" by simp
  from filtfilt_normalised_succeeds [OF assms(1) a0 s]
  show ?thesis
    using d(1) unfolding peaking_filter_def Let_def w0_def A_def alpha_def
    by (simp only: if_False)
qed

lemma peaking_band_succeeds:
  assumes "padlen < length audio" and "0 < freq params"
    and "2 * freq params < real_of_int sr" and "0 < q params"
  shows "\<exists>y. peaking_band sr params audio = Inr y \<and> length y = length audio"
  using peaking_filter_succeeds [OF assms] by (simp add: peaking_band_def)

lemma shelf_alpha_pos:
  assumes "0 < sin w0" and "0 < A"
  shows "0 < shelf_alpha w0 A"
proof -
  have "0 < (A + 1 / A) * (1 / (7 / 10) - 1) + 2"
    using assms(2) by (simp add: add_pos_pos)
  then have "0 < sqrt ((A + 1 / A) * (1 / (7 / 10) - 1) + 2)" by simp
  with assms(1) show ?thesis unfolding shelf_alpha_def by simp
qed

lemma apply_low_shelf_succeeds:
  assumes "padlen < length audio" and "0 < freq (low_shelf (eq_params e))"
    and "2 * freq (low_shelf (eq_params e)) < real_of_int sr"
  shows "\<exists>y. apply_low_shelf e audio sr = Inr y \<and> length y = length audio"
proof (cases "\<bar>gain (low_shelf (eq_params e))\<bar> > 1 / 10")
  case False
  then show ?thesis by (simp add: apply_low_shelf_def Let_def)
next
  case True
  note d = digital_frequency [OF assms(2,3)]
  define w0 where "w0 = 2 * pi * freq (low_shelf (eq_params e)) / real_of_int sr"
  define A :: real where "A = 10 powr (gain (low_shelf (eq_params e)) / 40)"
  define alpha where "alpha = shelf_alpha w0 A"
  define c where "c = cos w0"
  have A: "0 < A" by (simp add: A_def)
  have al: "0 < alpha" unfolding alpha_def using d(2) A by (intro shelf_alpha_pos) (simp_all add: w0_def)
  have c1: "c < 1" and c2: "- 1 < c" using d(3,4) by (simp_all add: c_def w0_def)
  have "0 < A * (1 + c) + (1 - c)" using A c1 c2 by (simp add: add_pos_pos)
  moreover have "0 < 2 * sqrt A * alpha" using A al by simp
  moreover have "(A + 1) + (A - 1) * c + 2 * sqrt A * alpha
                   = A * (1 + c) + (1 - c) + 2 * sqrt A * alpha"
    by (simp add: algebra_simps)
  ultimately have a0: "(A + 1) + (A - 1) * c + 2 * sqrt A * alpha \<noteq> 0" by linarith
  have "(A + 1) + (A - 1) * c + 2 * sqrt A * alpha + - 2 * ((A - 1) + (A + 1) * c)
          + ((A + 1) + (A - 1) * c - 2 * sqrt A * alpha) = 4 * (1 - c)"
    by (simp add: algebra_simps)
  with c1 have s: "(A + 1) + (A - 1) * c + 2 * sqrt A * alpha + - 2 * ((A - 1) + (A + 1) * c)
          + ((A + 1) + (A - 1) * c - 2 * sqrt A * alpha) \<noteq> 0" by simp
  from filtfilt_normalised_succeeds [OF assms(1) a0 s]
  show ?thesis
    using d(1) True unfolding apply_low_shelf_def Let_def w0_def A_def alpha_def c_def
    by (simp only: if_True if_False)
qed

lemma apply_high_shelf_succeeds:
  assumes "padlen < length audio" and "0 < freq (high_shelf (eq_params e))"
    and "2 * freq (high_shelf (eq_params e)) < real_of_int sr"
  shows "\<exists>y. apply_high_shelf e audio sr = Inr y \<and> length y = length audio"
proof (cases "\<bar>gain (high_shelf (eq_params e))\<bar> > 1 / 10")
  case False
  then show ?thesis by (simp add: apply_high_shelf_def Let_def)
next
  case True
  note d = digital_frequency [OF assms(2,3)]
  define w0 where "w0 = 2 * pi * freq (high_shelf (eq_params e)) / real_of_int sr"
  define A :: real where "A = 10 powr (gain (high_shelf (eq_params e)) / 40)"
  define alpha where "alpha = shelf_alpha w0 A"
  define c where "c = cos w0"
  have A: "0 < A" by (simp add: A_def)
  have al: "0 < alpha" unfolding alpha_def using d(2) A by (intro shelf_alpha_pos) (simp_all add: w0_def)
  have c1: "c < 1" and c2: "- 1 < c" using d(3,4) by (simp_all add: c_def w0_def)
  have "0 < A * (1 - c) + (1 + c)" using A c1 c2 by (simp add: add_pos_pos)
  moreover have "0 < 2 * sqrt A * alpha" using A al by simp
  moreover have "(A + 1) - (A - 1) * c + 2 * sqrt A * alpha
                   = A * (1 - c) + (1 + c) + 2 * sqrt A * alpha"
    by (simp add: algebra_simps)
  ultimately have a0: "(A + 1) - (A - 1) * c + 2 * sqrt A * alpha \<noteq> 0" by linarith
  have "(A + 1) - (A - 1) * c + 2 * sqrt A * alpha + 2 * ((A - 1) - (A + 1) * c)
          + ((A + 1) - (A - 1) * c - 2 * sqrt A * alpha) = 4 * (A * (1 - c))"
    by (simp add: algebra_simps)
  moreover have "0 < 4 * (A * (1 - c))" using A c1 by simp
  ultimately have s: "(A + 1) - (A - 1) * c + 2 * sqrt A * alpha + 2 * ((A - 1) - (A + 1) * c)
          + ((A + 1) - (A - 1) * c - 2 * sqrt A * alpha) \<noteq> 0" by linarith
  from filtfilt_normalised_succeeds [OF assms(1) a0 s]
  show ?thesis
    using d(1) True unfolding apply_high_shelf_def Let_def w0_def A_def alpha_def c_def
    by (simp only: if_True if_False)
qed

lemma eq_retune_bands:
  "freq (low_shelf (eq_retune c p)) = freq (low_shelf p)"
  "freq (low_mid (eq_retune c p)) = freq (low_mid p)"
  "freq (mid (eq_retune c p)) = freq (mid p)"
  "freq (high_mid (eq_retune c p)) = freq (high_mid p)"
  "freq (high_shelf (eq_retune c p)) = freq (high_shelf p)"
  "q (low_mid (eq_retune c p)) = q (low_mid p)"
  "q (mid (eq_retune c p)) = q (mid p)"
  "q (high_mid (eq_retune c p)) = q (high_mid p)"
  by (simp_all add: eq_retune_def)

lemma apply_peaking_filters_succeeds:
  assumes "padlen < length audio"
    and "\<forall>b\<in>{low_mid (eq_params e), mid (eq_params e), high_mid (eq_params e)}.
           0 < freq b \<and> 2 * freq b < real_of_int sr \<and> 0 < q b"
  shows "\<exists>y. apply_peaking_filters e audio sr = Inr y \<and> length y = length audio"
proof -
  from assms(2) have
    lm: "0 < freq (low_mid (eq_params e))" "2 * freq (low_mid (eq_params e)) < real_of_int sr"
        "0 < q (low_mid (eq_params e))"
    and mi: "0 < freq (mid (eq_params e))" "2 * freq (mid (eq_params e)) < real_of_int sr"
        "0 < q (mid (eq_params e))"
    and hm: "0 < freq (high_mid (eq_params e))" "2 * freq (high_mid (eq_params e)) < real_of_int sr"
        "0 < q (high_mid (eq_params e))"
    by simp_all
  from peaking_band_succeeds [OF assms(1) lm]
  obtain y1 where y1: "peaking_band sr (low_mid (eq_params e)) audio = Inr y1"
    "length y1 = length audio" by blast
  then have p1: "padlen < length y1" using assms(1) by simp
  from peaking_band_succeeds [OF p1 mi]
  obtain y2 where y2: "peaking_band sr (mid (eq_params e)) y1 = Inr y2"
    "length y2 = length y1" by blast
  then have p2: "padlen < length y2" using p1 by simp
  from peaking_band_succeeds [OF p2 hm]
  obtain y3 where y3: "peaking_band sr (high_mid (eq_params e)) y2 = Inr y3"
    "length y3 = length y2" by blast
  have "apply_peaking_filters e audio sr = Inr y3"
    unfolding apply_peaking_filters_def bind_err_def y1(1) by (simp only: sum.case y2(1) y3(1))
  with y1(2) y2(2) y3(2) show ?thesis by simp
qed

lemma apply_multiband_eq_succeeds:
  assumes pad: "padlen < length audio"
    and bands: "\<forall>b\<in>{low_shelf (eq_params e), low_mid (eq_params e), mid (eq_params e),
                        high_mid (eq_params e), high_shelf (eq_params e)}.
           0 < freq b \<and> 2 * freq b < real_of_int sr \<and> 0 < q b"
    and cen: "mean_spectral_centroid cen audio sr = Inr c"
  shows "\<exists>y. apply_multiband_eq cen e audio sr
               = (Inr y, e\<lparr>eq_params := eq_retune c (eq_params e)\<rparr>)
             \<and> length y = length audio"
proof -
  define e' where "e' = e\<lparr>eq_params := eq_retune c (eq_params e)\<rparr>"
  have ep: "eq_params e' = eq_retune c (eq_params e)" by (simp add: e'_def)
  have ls: "0 < freq (low_shelf (eq_params e'))" "2 * freq (low_shelf (eq_params e')) < real_of_int sr"
    using bands unfolding ep eq_retune_bands by simp_all
  have hs: "0 < freq (high_shelf (eq_params e'))" "2 * freq (high_shelf (eq_params e')) < real_of_int sr"
    using bands unfolding ep eq_retune_bands by simp_all
  have pk: "\<forall>b\<in>{low_mid (eq_params e'), mid (eq_params e'), high_mid (eq_params e')}.
           0 < freq b \<and> 2 * freq b < real_of_int sr \<and> 0 < q b"
    using bands unfolding ep by (simp add: eq_retune_bands)
  from apply_low_shelf_succeeds [OF pad ls]
  obtain y1 where y1: "apply_low_shelf e' audio sr = Inr y1" "length y1 = length audio" by blast
  then have p1: "padlen < length y1" using pad by simp
  from apply_peaking_filters_succeeds [OF p1 pk]
  obtain y2 where y2: "apply_peaking_filters e' y1 sr = Inr y2" "length y2 = length y1" by blast
  then have p2: "padlen < length y2" using p1 by simp
  from apply_high_shelf_succeeds [OF p2 hs]
  obtain y3 where y3: "apply_high_shelf e' y2 sr = Inr y3" "length y3 = length y2" by blast
  have "apply_multiband_eq cen e audio sr = (Inr y3, e')"
    unfolding apply_multiband_eq_def cen sum.case Let_def e'_def [symmetric] bind_err_def y1(1)
    by (simp only: sum.case y2(1) y3(1))
  with y1(2) y2(2) y3(2) show ?thesis unfolding e'_def by simp
qed

lemma apply_compression_succeeds:
  assumes "compressor_params e = init_compressor_params" and "sample_rate e = 22050"
    and "audio \<noteq> []"
  shows "\<exists>y. apply_compression e audio = Inr y \<and> length y = length audio"
proof -
  obtain x xs where a: "audio = x # xs" using assms(3) by (cases audio) simp_all
  have "\<exists>senv. smoothed_envelope e audio = Inr senv"
    using assms(1,2) unfolding a
    by (simp add: smoothed_envelope_def init_compressor_params_def py_int_def Let_def)
  then obtain senv where s: "smoothed_envelope e audio = Inr senv" by blast
  have l: "length senv = length audio" using s by (rule smoothed_envelope_length)
  show ?thesis
    unfolding apply_compression_unfold [OF s] using l by simp
qed

lemma enhance_stereo_succeeds:
  assumes "sample_rate e = 22050" and "padlen < length audio"
  shows "\<exists>y. enhance_stereo e audio = Inr y \<and> length y = length audio"
proof -
  define left where "left = take 22 audio @ take (length audio - 22) audio"
  have ll: "length left = length audio" by (auto simp add: left_def min_def)
  then have pl: "padlen < length left" using assms(2) by simp
  have "1 + - (5 / 10) + 1 / 10 \<noteq> (0::real)" by simp
  from lfilter_zi_succeeds [OF this]
  obtain zl where zl: "lfilter_zi (1, 0, 0) (1, - (5 / 10), 1 / 10) = Inr zl" by blast
  have "1 + - (7 / 10) + 2 / 10 \<noteq> (0::real)" by simp
  from lfilter_zi_succeeds [OF this]
  obtain zr where zr: "lfilter_zi (8 / 10, - (8 / 10), 0) (1, - (7 / 10), 2 / 10) = Inr zr" by blast
  from filtfilt_succeeds [OF pl zl]
  obtain s0 where s0: "filtfilt (1, 0, 0) (1, - (5 / 10), 1 / 10) left = Inr s0"
    "length s0 = length left" by blast
  from filtfilt_succeeds [OF assms(2) zr]
  obtain s1 where s1: "filtfilt (8 / 10, - (8 / 10), 0) (1, - (7 / 10), 2 / 10) audio = Inr s1"
    "length s1 = length audio" by blast
  have d: "nat (py_int (1 / 1000 * real (sample_rate e))) = 22"
    unfolding assms(1) by (simp add: py_int_def)
  have "enhance_stereo e audio = Inr (map2 (\<lambda>l r. (l + r) / 2) s0 s1)"
    unfolding enhance_stereo_def Let_def d left_def [symmetric] bind_err_def s0(1)
    by (simp only: sum.case s1(1)) simp
  moreover have "length (map2 (\<lambda>l r. (l + r) / 2) s0 s1) = length audio"
    using s0(2) s1(2) ll by simp
  ultimately show ?thesis by blast
qed

lemma apply_limiting_succeeds:
  assumes "limiter_params e = init_limiter_params" and "sample_rate e = 22050"
  shows "\<exists>y. apply_limiting e audio = Inr y \<and> length y = length audio"
proof -
  let ?f = "limit_sample (10 powr (- (1 / 2) / 20)) 110 44 audio"
  have "\<forall>i\<in>set [0..<length audio]. \<exists>v. ?f i = Inr v"
    using limit_sample_succeeds [of _ audio 44 110] by simp
  from sequence_err_map [OF this] show ?thesis
    unfolding apply_limiting_default [OF assms] by auto
qed

lemma normalize_loudness_succeeds:
  assumes "padlen < length audio"
  shows "\<exists>y. normalize_loudness e audio sr = Inr y \<and> length y = length audio"
proof -
  from k_weighting_succeeds [OF assms]
  obtain k where k: "k_weighting audio sr = Inr k" by blast
  show ?thesis
    unfolding normalize_loudness_unfold [OF calculate_lufs_unfold [OF k]] by simp
qed

lemma validate_input_length:
  assumes "validate_input audio = Inr audio1"
  shows "length audio1 = length audio"
proof (cases "audio = []")
  case True
  with assms show ?thesis
    by (simp add: validate_input_def nan_to_num_def abs_max_def bind_err_def)
next
  case False
  from assms show ?thesis
    unfolding validate_input_cases [OF False] Let_def
    by (auto simp add: nan_to_num_def split: if_splits)
qed

lemma master_track_accepted:
  assumes "audio \<noteq> []" and "validate_input audio = Inr audio1"
    and "apply_multiband_eq cen e audio1 sr = (Inr audio2, e')"
    and "apply_compression e' audio2 = Inr audio3"
    and "enhance_stereo e' audio3 = Inr audio4"
    and "apply_limiting e' (apply_harmonic_excitation audio4) = Inr audio6"
    and "normalize_loudness e' audio6 sr = Inr audio7"
    and "audio7 \<noteq> []"
  shows "master_track cen e audio sr = (Inr audio7, e')"
  using assms by (simp add: master_track_def bind_err_def abs_max_def)

lemma master_track_succeeds:
  assumes accepted: "validate_input audio = Inr audio1"
    and long: "9 < length audio"
    and cp: "compressor_params e = init_compressor_params"
    and lp: "limiter_params e = init_limiter_params"
    and sr: "sample_rate e = 22050"
    and bands: "\<forall>b\<in>{low_shelf (eq_params e), low_mid (eq_params e), mid (eq_params e),
                        high_mid (eq_params e), high_shelf (eq_params e)}.
                 0 < freq b \<and> 2 * freq b < real_of_int sr \<and> 0 < q b"
    and analysis: "mean_spectral_centroid cen audio1 sr = Inr c"
  shows "\<exists>out. master_track cen e audio sr
                 = (Inr out, e\<lparr>eq_params := eq_retune c (eq_params e)\<rparr>)
               \<and> length out = length audio"
proof -
  define e' where "e' = e\<lparr>eq_params := eq_retune c (eq_params e)\<rparr>"
  have cp': "compressor_params e' = init_compressor_params"
    and lp': "limiter_params e' = init_limiter_params"
    and sr': "sample_rate e' = 22050"
    using cp lp sr by (simp_all add: e'_def)
  have ne: "audio \<noteq> []" using long by auto
  have l1: "length audio1 = length audio" using accepted by (rule validate_input_length)
  then have p1: "padlen < length audio1" using long by (simp add: padlen_def)
  from apply_multiband_eq_succeeds [OF p1 bands analysis]
  obtain audio2 where a2: "apply_multiband_eq cen e audio1 sr = (Inr audio2, e')"
    "length audio2 = length audio1" unfolding e'_def by blast
  then have ne2: "audio2 \<noteq> []" using p1 by auto
  from apply_compression_succeeds [OF cp' sr' ne2]
  obtain audio3 where a3: "apply_compression e' audio2 = Inr audio3"
    "length audio3 = length audio2" by blast
  then have p3: "padlen < length audio3" using a2(2) p1 by simp
  from enhance_stereo_succeeds [OF sr' p3]
  obtain audio4 where a4: "enhance_stereo e' audio3 = Inr audio4"
    "length audio4 = length audio3" by blast
  from apply_limiting_succeeds [OF lp' sr', of "apply_harmonic_excitation audio4"]
  obtain audio6 where a6: "apply_limiting e' (apply_harmonic_excitation audio4) = Inr audio6"
    "length audio6 = length audio4" by (auto simp add: apply_harmonic_excitation_def)
  then have p6: "padlen < length audio6" using a4(2) p3 by simp
  from normalize_loudness_succeeds [OF p6]
  obtain audio7 where a7: "normalize_loudness e' audio6 sr = Inr audio7"
    "length audio7 = length audio6" by blast
  then have ne7: "audio7 \<noteq> []" using p6 by auto
  have "master_track cen e audio sr = (Inr audio7, e')"
    using ne accepted a2(1) a3(1) a4(1) a6(1) a7(1) ne7 by (rule master_track_accepted)
  moreover have "length audio7 = length audio"
    using a7(2) a6(2) a4(2) a3(2) a2(2) l1 by simp
  ultimately show ?thesis unfolding e'_def by blast
qed

lemma enhance_stereo_short:
  assumes "sample_rate e = 22050" and "length audio \<le> padlen"
  shows "enhance_stereo e audio = Inl PadLength"
proof -
  have d: "nat (py_int (1 / 1000 * real (sample_rate e))) = 22"
    unfolding assms(1) by (simp add: py_int_def)
  have "length (take 22 audio @ take (length audio - 22) audio) \<le> padlen"
    using assms(2) by (simp add: padlen_def)
  then have "filtfilt (1, 0, 0) (1, - (5 / 10), 1 / 10)
               (take 22 audio @ take (length audio - 22) audio) = Inl PadLength"
    by (rule filtfilt_short)
  then show ?thesis
    unfolding enhance_stereo_def Let_def d bind_err_def by simp
qed

lemma peaking_band_short:
  assumes "length audio \<le> padlen" and "sr \<noteq> 0"
  shows "peaking_band sr params audio = Inr audio \<or> peaking_band sr params audio = Inl PadLength"
  using assms filtfilt_short [OF assms(1)]
  by (simp add: peaking_band_def peaking_filter_def Let_def)

lemma apply_low_shelf_short:
  assumes "length audio \<le> padlen" and "sr \<noteq> 0"
  shows "apply_low_shelf e audio sr = Inr audio \<or> apply_low_shelf e audio sr = Inl PadLength"
  using assms filtfilt_short [OF assms(1)]
  by (simp add: apply_low_shelf_def Let_def)

lemma apply_high_shelf_short:
  assumes "length audio \<le> padlen" and "sr \<noteq> 0"
  shows "apply_high_shelf e audio sr = Inr audio \<or> apply_high_shelf e audio sr = Inl PadLength"
  using assms filtfilt_short [OF assms(1)]
  by (simp add: apply_high_shelf_def Let_def)

lemma apply_peaking_filters_short:
  assumes "length audio \<le> padlen" and "sr \<noteq> 0"
  shows "apply_peaking_filters e audio sr = Inr audio
       \<or> apply_peaking_filters e audio sr = Inl PadLength"
  using peaking_band_short [OF assms, of "low_mid (eq_params e)"]
        peaking_band_short [OF assms, of "mid (eq_params e)"]
        peaking_band_short [OF assms, of "high_mid (eq_params e)"]
  by (auto simp add: apply_peaking_filters_def bind_err_def)

lemma apply_multiband_eq_short:
  assumes "length audio \<le> padlen" and "sr \<noteq> 0"
    and "mean_spectral_centroid cen audio sr = Inr c"
  shows "fst (apply_multiband_eq cen e audio sr) = Inr audio
       \<or> fst (apply_multiband_eq cen e audio sr) = Inl PadLength"
  using apply_low_shelf_short [OF assms(1,2), of "e\<lparr>eq_params := eq_retune c (eq_params e)\<rparr>"]
        apply_peaking_filters_short [OF assms(1,2), of "e\<lparr>eq_params := eq_retune c (eq_params e)\<rparr>"]
        apply_high_shelf_short [OF assms(1,2), of "e\<lparr>eq_params := eq_retune c (eq_params e)\<rparr>"]
  by (auto simp add: apply_multiband_eq_def assms(3) Let_def bind_err_def)

lemma apply_multiband_eq_state:
  "mean_spectral_centroid cen audio sr = Inr c \<Longrightarrow>
     snd (apply_multiband_eq cen e audio sr) = e\<lparr>eq_params := eq_retune c (eq_params e)\<rparr>"
  by (simp add: apply_multiband_eq_def Let_def)

lemma apply_multiband_eq_raises:
  "mean_spectral_centroid cen audio sr = Inl err \<Longrightarrow>
     apply_multiband_eq cen e audio sr = (Inl err, e)"
  by (simp add: apply_multiband_eq_def)

lemma master_track_short:
  assumes accepted: "validate_input audio = Inr audio1"
    and ne: "audio \<noteq> []" and short: "length audio \<le> 9" and sr: "sr \<noteq> 0"
    and cp: "compressor_params e = init_compressor_params"
    and rate: "sample_rate e = 22050"
    and analysis: "mean_spectral_centroid cen audio1 sr = Inr c"
  shows "fst (master_track cen e audio sr) = Inl PadLength"
proof -
  define e' where "e' = e\<lparr>eq_params := eq_retune c (eq_params e)\<rparr>"
  have cp': "compressor_params e' = init_compressor_params" and sr': "sample_rate e' = 22050"
    using cp rate by (simp_all add: e'_def)
  have l1: "length audio1 = length audio" using accepted by (rule validate_input_length)
  then have s1: "length audio1 \<le> padlen" and ne1: "audio1 \<noteq> []"
    using short ne by (auto simp add: padlen_def)
  obtain r where r: "apply_multiband_eq cen e audio1 sr = (r, e')"
    using apply_multiband_eq_state [OF analysis, of e] unfolding e'_def
    by (cases "apply_multiband_eq cen e audio1 sr") simp
  from apply_multiband_eq_short [OF s1 sr analysis, of e] r
  consider "r = Inr audio1" | "r = Inl PadLength" by auto
  then show ?thesis
  proof cases
    case 2
    then show ?thesis using ne accepted r by (simp add: master_track_def bind_err_def)
  next
    case 1
    from apply_compression_succeeds [OF cp' sr' ne1]
    obtain audio3 where a3: "apply_compression e' audio1 = Inr audio3"
      "length audio3 = length audio1" by blast
    then have "length audio3 \<le> padlen" using s1 by simp
    then have "enhance_stereo e' audio3 = Inl PadLength"
      using sr' by (intro enhance_stereo_short)
    then show ?thesis
      using ne accepted r 1 a3(1) by (simp add: master_track_def bind_err_def)
  qed
qed

text \<open>
  Claim C7, as amended. For every buffer that validation accepts and that has more than 9
  samples, on an engine with the default compressor and limiter parameters and the internal rate
  of 22050 Hz, and for a sample rate argument above twice the frequency of each of the five
  bands, \<^verbatim>\<open>master_track\<close> returns a buffer of the input's length (the only state it
  writes is the retune of the band gains, for the centroid \<open>c\<close> that the spectral analysis
  returned). Buffers are one-dimensional throughout: the two channels of the stereo stage are
  averaged sample by sample.
\<close>

theorem master_track_preserves_length:
  assumes "validate_input audio = Inr audio1"
    and "9 < length audio"
    and "compressor_params e = init_compressor_params"
    and "limiter_params e = init_limiter_params"
    and "sample_rate e = 22050"
    and "\<forall>b\<in>{low_shelf (eq_params e), low_mid (eq_params e), mid (eq_params e),
                 high_mid (eq_params e), high_shelf (eq_params e)}.
           0 < freq b \<and> 2 * freq b < real_of_int sr \<and> 0 < q b"
    and "mean_spectral_centroid cen audio1 sr = Inr c"
  shows "\<exists>out. master_track cen e audio sr
                 = (Inr out, e\<lparr>eq_params := eq_retune c (eq_params e)\<rparr>)
               \<and> length out = length audio"
  using assms by (rule master_track_succeeds)

theorem master_track_preserves_length_witness:
  "\<exists>out. master_track (\<lambda>a s. Inr 2000) (MasteringEngine (- 14) (- 1)) (replicate 10 (Fin (1 / 2))) 22050
            = (Inr out, MasteringEngine (- 14) (- 1))
         \<and> length out = 10"
proof -
  let ?E = "MasteringEngine (- 14) (- 1)"
  let ?c = "\<lambda>(a :: real list) (s :: int). Inr 2000 :: error + real"
  have v: "validate_input (replicate 10 (Fin (1 / 2))) = Inr (replicate 10 (1 / 2))"
    by (simp add: validate_input_def nan_to_num_def abs_max_def bind_err_def Let_def)
  have l: "9 < length (replicate 10 (Fin (1 / 2)))" by simp
  have cp: "compressor_params ?E = init_compressor_params"
    and lp: "limiter_params ?E = init_limiter_params"
    and sr: "sample_rate ?E = 22050"
    by (simp_all add: MasteringEngine_def)
  have b: "\<forall>b\<in>{low_shelf (eq_params ?E), low_mid (eq_params ?E), mid (eq_params ?E),
                 high_mid (eq_params ?E), high_shelf (eq_params ?E)}.
           0 < freq b \<and> 2 * freq b < real_of_int 22050 \<and> 0 < q b"
    by (simp add: MasteringEngine_def init_eq_params_def)
  have a: "mean_spectral_centroid ?c (replicate 10 (1 / 2)) 22050 = Inr 2000"
    by (simp add: mean_spectral_centroid_def bind_err_def)
  have u: "?E\<lparr>eq_params := eq_retune 2000 (eq_params ?E)\<rparr> = ?E"
    by (simp add: eq_retune_def)
  from master_track_preserves_length [OF v l cp lp sr b a]
  show ?thesis unfolding u by simp
qed

text \<open>
  Claim C7, as stated, fails. The one-sample buffer \<open>[0.5]\<close> is accepted by validation, but
  whatever centroid the spectral analysis returns, \<^verbatim>\<open>master_track\<close> ends with the
  ValueError of \<^verbatim>\<open>filtfilt\<close>, whose input must be longer than its pad length of 9
  samples: in the equaliser when a band is active, in the stereo stage otherwise. An analysis
  that raises ends the call as well, so that no analysis makes the call return a buffer.
\<close>

theorem master_track_short_buffer_counterexample:
  "validate_input [Fin (1 / 2)] = Inr [1 / 2]
   \<and> (\<forall>c. fst (master_track (\<lambda>a s. Inr c) (MasteringEngine (- 14) (- 1)) [Fin (1 / 2)] 22050)
         = Inl PadLength)
   \<and> (\<forall>cen out. fst (master_track cen (MasteringEngine (- 14) (- 1)) [Fin (1 / 2)] 22050)
         \<noteq> Inr out)"
proof -
  let ?E = "MasteringEngine (- 14) (- 1)"
  have v: "validate_input [Fin (1 / 2)] = Inr [1 / 2]"
    by (simp add: validate_input_def nan_to_num_def abs_max_def bind_err_def Let_def)
  have r: "fst (master_track cen ?E [Fin (1 / 2)] 22050) = Inl PadLength"
    if "mean_spectral_centroid cen [1 / 2] 22050 = Inr c" for cen c
    by (rule master_track_short [OF v _ _ _ _ _ that]) (simp_all add: MasteringEngine_def)
  have 1: "fst (master_track (\<lambda>a s. Inr c) ?E [Fin (1 / 2)] 22050) = Inl PadLength" for c
    by (rule r [of _ c]) (simp add: mean_spectral_centroid_returns)
  have 2: "fst (master_track cen ?E [Fin (1 / 2)] 22050) \<noteq> Inr out" for cen out
  proof (cases "mean_spectral_centroid cen [1 / 2] 22050")
    case (Inl err)
    show ?thesis unfolding master_track_analysis_raises [OF v Inl] by simp
  next
    case (Inr c)
    show ?thesis unfolding r [OF Inr] by simp
  qed
  from v 1 2 show ?thesis by blast
qed

















end
